theory Spec2Isabelle
  imports Main
begin

section \<open>JavaScript strings\<close>

text \<open>
  A JavaScript string is modelled as a \<^typ>\<open>string\<close>, one \<^typ>\<open>char\<close> per code unit.
  The alphabet of the model is the 256 code units from U+0000 to U+00FF (ASCII and
  Latin-1), which covers what the print subsystem's reports, printer names and paths are
  made of; code units from U+0100 on are not in the model.
\<close>

text \<open>\<^verbatim>\<open>s.startsWith(t)\<close>.\<close>

fun starts_with :: "string \<Rightarrow> string \<Rightarrow> bool" where
  "starts_with s [] = True"
| "starts_with [] (c # t) = False"
| "starts_with (d # s) (c # t) = (d = c \<and> starts_with s t)"

text \<open>\<^verbatim>\<open>s.includes(t)\<close>: \<open>t\<close> occurs in \<open>s\<close> as a contiguous substring.\<close>

fun str_includes :: "string \<Rightarrow> string \<Rightarrow> bool" where
  "str_includes [] t = (t = [])"
| "str_includes (c # s) t = (starts_with (c # s) t \<or> str_includes s t)"

text \<open>\<^verbatim>\<open>s.split("\n")\<close>: the pieces between the separators; never the empty array.\<close>

fun split_on :: "char \<Rightarrow> string \<Rightarrow> string list" where
  "split_on sep [] = [[]]"
| "split_on sep (c # s) =
     (if c = sep then [] # split_on sep s
      else (case split_on sep s of
              [] \<Rightarrow> [[c]]
            | piece # pieces \<Rightarrow> (c # piece) # pieces))"

text \<open>\<^verbatim>\<open>xs.join(sep)\<close>.\<close>

fun join :: "string \<Rightarrow> string list \<Rightarrow> string" where
  "join sep [] = []"
| "join sep [x] = x"
| "join sep (x # y # ys) = x @ sep @ join sep (y # ys)"

text \<open>
  \<^verbatim>\<open>s.toLowerCase()\<close>: the letters A to Z, and the Latin-1 capitals U+00C0 to
  U+00DE (the multiplication sign U+00D7 is not a letter), go to the code unit 32 places
  further; every other code unit of the alphabet stays.
\<close>

definition upper_letters :: string where
  "upper_letters =
     ''ABCDEFGHIJKLMNOPQRSTUVWXYZ'' @
     [CHR 0xC0, CHR 0xC1, CHR 0xC2, CHR 0xC3, CHR 0xC4, CHR 0xC5, CHR 0xC6, CHR 0xC7,
      CHR 0xC8, CHR 0xC9, CHR 0xCA, CHR 0xCB, CHR 0xCC, CHR 0xCD, CHR 0xCE, CHR 0xCF,
      CHR 0xD0, CHR 0xD1, CHR 0xD2, CHR 0xD3, CHR 0xD4, CHR 0xD5, CHR 0xD6, CHR 0xD8,
      CHR 0xD9, CHR 0xDA, CHR 0xDB, CHR 0xDC, CHR 0xDD, CHR 0xDE]"

definition lower_letters :: string where
  "lower_letters =
     ''abcdefghijklmnopqrstuvwxyz'' @
     [CHR 0xE0, CHR 0xE1, CHR 0xE2, CHR 0xE3, CHR 0xE4, CHR 0xE5, CHR 0xE6, CHR 0xE7,
      CHR 0xE8, CHR 0xE9, CHR 0xEA, CHR 0xEB, CHR 0xEC, CHR 0xED, CHR 0xEE, CHR 0xEF,
      CHR 0xF0, CHR 0xF1, CHR 0xF2, CHR 0xF3, CHR 0xF4, CHR 0xF5, CHR 0xF6, CHR 0xF8,
      CHR 0xF9, CHR 0xFA, CHR 0xFB, CHR 0xFC, CHR 0xFD, CHR 0xFE]"

definition lower_char :: "char \<Rightarrow> char" where
  "lower_char c =
     (case map_of (zip upper_letters lower_letters) c of
        Some d \<Rightarrow> d
      | None \<Rightarrow> c)"

definition toLowerCase :: "string \<Rightarrow> string" where
  "toLowerCase s = map lower_char s"

text \<open>
  \<^verbatim>\<open>s.trim()\<close>: white space and line terminators are dropped at both ends. In
  the alphabet of the model these are tab, line feed, vertical tab, form feed, carriage
  return, space and the no-break space U+00A0.
\<close>

definition is_white_space :: "char \<Rightarrow> bool" where
  "is_white_space c \<longleftrightarrow>
     c \<in> set [CHR 0x09, CHR 0x0A, CHR 0x0B, CHR 0x0C, CHR 0x0D, CHR 0x20, CHR 0xA0]"

definition trim :: "string \<Rightarrow> string" where
  "trim s = rev (dropWhile is_white_space (rev (dropWhile is_white_space s)))"

text \<open>
  \<^verbatim>\<open>n.toString()\<close> of an integer: its decimal digits, after a minus sign when it
  is negative. This is what \<^verbatim>\<open>Number.prototype.toString\<close> gives for the integers
  below \<^verbatim>\<open>1e21\<close> in magnitude (from there on it switches to exponent notation, which
  is not modelled); the numbers printed here are a count of copies and a time stamp of
  \<^verbatim>\<open>Date.now()\<close>, which has 13 digits.
\<close>

function digits_of :: "int \<Rightarrow> string" where
  "digits_of i =
     (if i < 10 then [''0123456789'' ! nat i]
      else digits_of (i div 10) @ [''0123456789'' ! nat (i mod 10)])"
  by pat_completeness auto
termination
  by (relation "measure nat") auto

definition int_toString :: "int \<Rightarrow> string" where
  "int_toString i = (if i < 0 then ''-'' @ digits_of (- i) else digits_of i)"

section \<open>Print options and the print command\<close>

text \<open>
  \<^verbatim>\<open>interface PrintOptions\<close>: every field is optional. \<open>copies\<close> is a count, an
  integer (a fractional number or \<^verbatim>\<open>NaN\<close> is not in the model),
  \<open>cupOptions\<close> is the list \<^verbatim>\<open>Object.entries(options.cupOptions)\<close>, in the
  iteration order of the object.
\<close>

record PrintOptions =
  copies :: "int option"
  media :: "string option"
  grayscale :: "bool option"
  fitToPage :: "bool option"
  cupOptions :: "(string \<times> string) list option"

text \<open>\<^verbatim>\<open>`"${s}"`\<close>.\<close>

definition quoted :: "string \<Rightarrow> string" where
  "quoted s = ''\"'' @ s @ ''\"''"

text \<open>
  The loop \<^verbatim>\<open>for (const [key, value] of Object.entries(options.cupOptions))\<close>,
  pushing two arguments per pair.
\<close>

fun push_cupOptions :: "string list \<Rightarrow> (string \<times> string) list \<Rightarrow> string list" where
  "push_cupOptions args [] = args"
| "push_cupOptions args ((key, val) # entries) =
     push_cupOptions (args @ [''-o'', key @ ''='' @ val]) entries"

text \<open>
  \<open>buildPrintCommand\<close>: the argument array grows by \<^verbatim>\<open>args.push\<close>, each push
  under the truthiness test of the source (\<^verbatim>\<open>undefined\<close>, \<open>0\<close>, the empty string
  and \<^verbatim>\<open>false\<close> are falsy; an object is truthy).
\<close>

definition buildPrintCommand :: "string \<Rightarrow> string \<Rightarrow> PrintOptions \<Rightarrow> string" where
  "buildPrintCommand printerName imagePath options =
     (let args = [''lp''];
          args = args @ [''-d'', quoted printerName];
          args = (case copies options of
                    Some n \<Rightarrow> if n \<noteq> 0 \<and> n > 1 then args @ [''-n'', int_toString n] else args
                  | None \<Rightarrow> args);
          args = (case media options of
                    Some m \<Rightarrow> if m \<noteq> [] then args @ [''-o'', ''media='' @ m] else args
                  | None \<Rightarrow> args);
          args = (if grayscale options = Some True
                  then args @ [''-o'', ''ColorModel=Gray''] else args);
          args = (if fitToPage options = Some True
                  then args @ [''-o'', ''fit-to-page''] else args);
          args = (case cupOptions options of
                    Some entries \<Rightarrow> push_cupOptions args entries
                  | None \<Rightarrow> args);
          args = args @ [quoted imagePath]
      in join '' '' args)"


section \<open>The regular expressions of the source\<close>

text \<open>
  The source scrapes the command outputs with regular expressions, none with a flag. The
  four that \<open>getAllPrinters\<close> and \<open>printImage\<close> use are written out here, each as
  the function the ECMAScript matcher computes for it: the match is
  tried at every start position from the left (\<open>regex_search\<close>), \<^verbatim>\<open>.\<close> is any
  character but a line terminator, a greedy quantifier takes as much as it can and gives
  back, a lazy one takes as little as it can and extends.
\<close>

definition is_line_terminator :: "char \<Rightarrow> bool" where
  "is_line_terminator c \<longleftrightarrow> c = CHR 0x0A \<or> c = CHR 0x0D"

definition is_digit :: "char \<Rightarrow> bool" where
  "is_digit c \<longleftrightarrow> c \<in> set ''0123456789''"

text \<open>The longest run \<^verbatim>\<open>.*\<close> can take at the head of \<open>s\<close>.\<close>

definition dot_star :: "string \<Rightarrow> string" where
  "dot_star s = takeWhile (\<lambda>c. \<not> is_line_terminator c) s"

text \<open>Matching a literal at the head of the subject: what is left after it.\<close>

fun after_prefix :: "string \<Rightarrow> string \<Rightarrow> string option" where
  "after_prefix [] s = Some s"
| "after_prefix (c # lit) [] = None"
| "after_prefix (c # lit) (d # s) = (if c = d then after_prefix lit s else None)"

text \<open>The first start position, from the left, at which the pattern matches.\<close>

fun regex_search :: "(string \<Rightarrow> 'a option) \<Rightarrow> string \<Rightarrow> 'a option" where
  "regex_search m [] = m []"
| "regex_search m (c # s) =
     (case m (c # s) of Some r \<Rightarrow> Some r | None \<Rightarrow> regex_search m s)"

text \<open>\<^verbatim>\<open>/system default destination: (.+)/\<close>, group 1.\<close>

definition default_at :: "string \<Rightarrow> string option" where
  "default_at s =
     (case after_prefix ''system default destination: '' s of
        None \<Rightarrow> None
      | Some r \<Rightarrow> if dot_star r = [] then None else Some (dot_star r))"

definition match_default :: "string \<Rightarrow> string option" where
  "match_default s = regex_search default_at s"

text \<open>
  \<^verbatim>\<open>/printer (.+?) (.*)/\<close>, groups 1 and 2. The lazy group has taken \<open>taken\<close>
  (one character at least); it stops at the first space that follows, and cannot cross
  a line terminator.
\<close>

fun lazy_to_space :: "string \<Rightarrow> string \<Rightarrow> (string \<times> string) option" where
  "lazy_to_space taken [] = None"
| "lazy_to_space taken (c # s) =
     (if c = CHR '' '' then Some (taken, dot_star s)
      else if is_line_terminator c then None
      else lazy_to_space (taken @ [c]) s)"

definition printer_at :: "string \<Rightarrow> (string \<times> string) option" where
  "printer_at s =
     (case after_prefix ''printer '' s of
        None \<Rightarrow> None
      | Some [] \<Rightarrow> None
      | Some (c # r) \<Rightarrow> if is_line_terminator c then None else lazy_to_space [c] r)"

definition match_printer :: "string \<Rightarrow> (string \<times> string) option" where
  "match_printer s = regex_search printer_at s"

text \<open>
  \<^verbatim>\<open>/device for (.+?): (.+)/\<close>, groups 1 and 2. The lazy group stops at the first
  colon-space that is followed by one character at least for group 2.
\<close>

fun lazy_to_colon :: "string \<Rightarrow> string \<Rightarrow> (string \<times> string) option" where
  "lazy_to_colon taken [] = None"
| "lazy_to_colon taken (c # s) =
     (case (case after_prefix '': '' (c # s) of
              None \<Rightarrow> None
            | Some u \<Rightarrow> if dot_star u = [] then None else Some (taken, dot_star u)) of
        Some r \<Rightarrow> Some r
      | None \<Rightarrow> if is_line_terminator c then None else lazy_to_colon (taken @ [c]) s)"

definition device_at :: "string \<Rightarrow> (string \<times> string) option" where
  "device_at s =
     (case after_prefix ''device for '' s of
        None \<Rightarrow> None
      | Some [] \<Rightarrow> None
      | Some (c # r) \<Rightarrow> if is_line_terminator c then None else lazy_to_colon [c] r)"

definition match_device :: "string \<Rightarrow> (string \<times> string) option" where
  "match_device s = regex_search device_at s"

text \<open>
  \<^verbatim>\<open>/request id is .+-(\d+)/\<close>, group 1. The greedy \<^verbatim>\<open>.+\<close> has taken one
  character at least; it first tries to take the next one too, and only when the rest
  fails does it stop here, before a hyphen followed by digits.
\<close>

fun greedy_to_dash :: "string \<Rightarrow> string option" where
  "greedy_to_dash [] = None"
| "greedy_to_dash (c # s) =
     (case (if is_line_terminator c then None else greedy_to_dash s) of
        Some d \<Rightarrow> Some d
      | None \<Rightarrow>
          if c = CHR ''-'' \<and> takeWhile is_digit s \<noteq> [] then Some (takeWhile is_digit s)
          else None)"

definition job_at :: "string \<Rightarrow> string option" where
  "job_at s =
     (case after_prefix ''request id is '' s of
        None \<Rightarrow> None
      | Some [] \<Rightarrow> None
      | Some (c # r) \<Rightarrow> if is_line_terminator c then None else greedy_to_dash r)"

definition match_job :: "string \<Rightarrow> string option" where
  "match_job s = regex_search job_at s"

section \<open>The printer directory: parsing the two reports\<close>

record Printer =
  name :: string
  uri :: string
  status :: string
  isDefault :: bool
  isUSB :: bool
  description :: "string option"

text \<open>
  Lines 67 to 79 of \<open>getAllPrinters\<close>: the first device line that contains the printer
  name gives the locator and the USB flag; both keep their initial values (the empty
  string and \<^verbatim>\<open>false\<close>) when no line is found, when the line is falsy (empty), or when
  the line does not match.
\<close>

definition device_of :: "string list \<Rightarrow> string \<Rightarrow> string \<times> bool" where
  "device_of deviceLines printerName =
     (case find (\<lambda>d. str_includes d printerName) deviceLines of
        None \<Rightarrow> ([], False)
      | Some deviceLine \<Rightarrow>
          if deviceLine = [] then ([], False)
          else (case match_device deviceLine of
                  None \<Rightarrow> ([], False)
                | Some (dev, u) \<Rightarrow> (u, str_includes (toLowerCase u) ''usb'')))"

text \<open>The loop \<^verbatim>\<open>for (const line of lines)\<close>, pushing one record per matching line.\<close>

fun parse_printers :: "string \<Rightarrow> string list \<Rightarrow> string list \<Rightarrow> Printer list \<Rightarrow> Printer list" where
  "parse_printers defaultPrinter deviceLines [] printers = printers"
| "parse_printers defaultPrinter deviceLines (line # lines) printers =
     (case match_printer line of
        None \<Rightarrow> parse_printers defaultPrinter deviceLines lines printers
      | Some (printerName, st) \<Rightarrow>
          (let status = (if st = [] then ''unknown'' else st);
               (uri, isUSB) = device_of deviceLines printerName
           in parse_printers defaultPrinter deviceLines lines
                (printers @
                   [\<lparr>name = printerName, uri = uri, status = status,
                     isDefault = (printerName = defaultPrinter), isUSB = isUSB,
                     description = Some status\<rparr>])))"

text \<open>The body of \<open>getAllPrinters\<close> once both reports are there.\<close>

definition printers_of_reports :: "string \<Rightarrow> string \<Rightarrow> Printer list" where
  "printers_of_reports printerList printerDevices =
     (let lines = split_on CHR 0x0A printerList;
          deviceLines = split_on CHR 0x0A printerDevices;
          defaultPrinter = (case match_default printerList of Some p \<Rightarrow> p | None \<Rightarrow> [])
      in parse_printers defaultPrinter deviceLines lines [])"

section \<open>The world outside the program\<close>

text \<open>
  A thrown value: an \<^verbatim>\<open>Error\<close> with its message and, for the errors of the Node
  runtime, the \<^verbatim>\<open>code\<close> property (\<^verbatim>\<open>"ENOENT"\<close>, \<^verbatim>\<open>"EACCES"\<close>, ...);
  \<^verbatim>\<open>new Error(msg)\<close> has no code.
\<close>

datatype js_error = Error (message: string) (code: "string option")

text \<open>What the program does to the outside, in the order it does it.\<close>

datatype event =
    Exec string
  | Access string
  | WriteFile string string
  | Unlink string
  | Warn string
  | OnResume string
  | OnError js_error
  | SetTimeout nat

text \<open>
  The outside world. \<open>files\<close> is the content of the regular files (path to content).
  \<open>access_error\<close> says for which paths the system refuses read access and with which
  error: \<^verbatim>\<open>ENOENT\<close> when nothing is there, but also \<^verbatim>\<open>ENOTDIR\<close>,
  \<^verbatim>\<open>EACCES\<close>, \<^verbatim>\<open>ELOOP\<close>, \<^verbatim>\<open>ENAMETOOLONG\<close>, ...; it is not tied to
  \<open>files\<close>. \<open>write_error\<close> and \<open>unlink_error\<close> say which writes and deletions the
  system refuses and with which error. \<open>shell\<close> is what a command answers, given everything
  done so far: its standard output, or the error \<^verbatim>\<open>exec\<close> rejects with.
  \<open>tmpdir\<close>, \<open>now\<close> and \<open>random_id\<close> are the values of \<^verbatim>\<open>os.tmpdir()\<close>,
  \<^verbatim>\<open>Date.now()\<close> and \<^verbatim>\<open>Math.random().toString(36).substring(7)\<close>.
  \<open>stop_invoked\<close> says whether the caller has invoked the stop handle of the watcher
  by the time the history is the given one. \<open>trace\<close> is the history.
\<close>

record world =
  files :: "string \<Rightarrow> string option"
  access_error :: "string \<Rightarrow> js_error option"
  write_error :: "string \<Rightarrow> js_error option"
  unlink_error :: "string \<Rightarrow> js_error option"
  shell :: "event list \<Rightarrow> string \<Rightarrow> js_error + string"
  tmpdir :: string
  now :: int
  random_id :: string
  stop_invoked :: "event list \<Rightarrow> bool"
  trace :: "event list"

definition log_event :: "event \<Rightarrow> world \<Rightarrow> world" where
  "log_event ev w = w\<lparr>trace := trace w @ [ev]\<rparr>"

text \<open>The error of a system call on a path that does not exist.\<close>

definition enoent :: "string \<Rightarrow> string \<Rightarrow> js_error" where
  "enoent syscall path =
     Error (''ENOENT: no such file or directory, '' @ syscall @ '' '' @
            [CHR 0x27] @ path @ [CHR 0x27])
           (Some ''ENOENT'')"

text \<open>\<^verbatim>\<open>execAsync(command)\<close>.\<close>

definition execAsync :: "string \<Rightarrow> world \<Rightarrow> (js_error + string) \<times> world" where
  "execAsync command w = (shell w (trace w) command, log_event (Exec command) w)"

text \<open>\<^verbatim>\<open>fs.promises.access(path, fs.constants.R_OK)\<close>.\<close>

definition fs_access :: "string \<Rightarrow> world \<Rightarrow> (js_error + unit) \<times> world" where
  "fs_access path w =
     ((case access_error w path of Some e \<Rightarrow> Inl e | None \<Rightarrow> Inr ()),
      log_event (Access path) w)"

text \<open>\<^verbatim>\<open>fs.promises.writeFile(path, data)\<close>.\<close>

definition fs_writeFile :: "string \<Rightarrow> string \<Rightarrow> world \<Rightarrow> (js_error + unit) \<times> world" where
  "fs_writeFile path content w =
     (case write_error w path of
        Some e \<Rightarrow> (Inl e, log_event (WriteFile path content) w)
      | None \<Rightarrow>
          (Inr (), log_event (WriteFile path content) (w\<lparr>files := (files w)(path \<mapsto> content)\<rparr>)))"

text \<open>\<^verbatim>\<open>fs.promises.unlink(path)\<close>.\<close>

definition fs_unlink :: "string \<Rightarrow> world \<Rightarrow> (js_error + unit) \<times> world" where
  "fs_unlink path w =
     (case unlink_error w path of
        Some e \<Rightarrow> (Inl e, log_event (Unlink path) w)
      | None \<Rightarrow>
          (case files w path of
             None \<Rightarrow> (Inl (enoent ''unlink'' path), log_event (Unlink path) w)
           | Some content \<Rightarrow>
               (Inr (), log_event (Unlink path) (w\<lparr>files := (files w)(path := None)\<rparr>))))"

text \<open>\<^verbatim>\<open>console.warn(msg)\<close>.\<close>

definition console_warn :: "string \<Rightarrow> world \<Rightarrow> world" where
  "console_warn msg w = log_event (Warn msg) w"

text \<open>
  \<^verbatim>\<open>path.extname(p)\<close> of Node (POSIX): trailing slashes are dropped, the last
  component is taken, and the extension runs from its last dot to its end; there is none
  when the component has no dot, starts with its only dot, or is \<^verbatim>\<open>..\<close>.
\<close>

definition extname :: "string \<Rightarrow> string" where
  "extname p =
     (let trimmed = rev (dropWhile (\<lambda>c. c = CHR ''/'') (rev p));
          base = rev (takeWhile (\<lambda>c. c \<noteq> CHR ''/'') (rev trimmed));
          after_dot = takeWhile (\<lambda>c. c \<noteq> CHR ''.'') (rev base);
          startDot = length base - length after_dot - 1
      in if CHR ''.'' \<notin> set base then []
         else if startDot = 0 then []
         else if base = ''..'' then []
         else drop startDot base)"

text \<open>
  \<^verbatim>\<open>path.normalize\<close> and \<^verbatim>\<open>path.join\<close> of Node (POSIX). The segments between
  slashes are read from the left: an empty segment and \<^verbatim>\<open>.\<close> are dropped;
  \<^verbatim>\<open>..\<close> removes the segment kept last, unless there is none or it is \<^verbatim>\<open>..\<close>
  itself, in which case it is kept for a relative path and dropped for an absolute one;
  any other segment is kept.
\<close>

fun normalize_segments :: "bool \<Rightarrow> string list \<Rightarrow> string list \<Rightarrow> string list" where
  "normalize_segments allowAboveRoot res [] = res"
| "normalize_segments allowAboveRoot res (seg # segs) =
     (if seg = [] \<or> seg = ''.'' then normalize_segments allowAboveRoot res segs
      else if seg = ''..'' then
        (if res \<noteq> [] \<and> last res \<noteq> ''..''
         then normalize_segments allowAboveRoot (butlast res) segs
         else if allowAboveRoot then normalize_segments allowAboveRoot (res @ [''..'']) segs
         else normalize_segments allowAboveRoot res segs)
      else normalize_segments allowAboveRoot (res @ [seg]) segs)"

text \<open>
  The kept segments are joined by slashes, after a slash when the path is absolute and
  before one when it ended in a slash; a path that normalises to nothing is \<^verbatim>\<open>/\<close>,
  \<^verbatim>\<open>./\<close> or \<^verbatim>\<open>.\<close>.
\<close>

definition path_normalize :: "string \<Rightarrow> string" where
  "path_normalize p =
     (if p = [] then ''.''
      else
        (let isAbsolute = (hd p = CHR ''/'');
             trailingSeparator = (last p = CHR ''/'');
             body = join ''/'' (normalize_segments (\<not> isAbsolute) [] (split_on CHR ''/'' p))
         in if body = [] then
              (if isAbsolute then ''/'' else if trailingSeparator then ''./'' else ''.'')
            else (if isAbsolute then ''/'' else []) @ body @
                 (if trailingSeparator then ''/'' else [])))"

text \<open>
  \<^verbatim>\<open>path.join(a, b)\<close>: the arguments that are not empty, joined by a slash, then
  normalised; \<^verbatim>\<open>.\<close> when both are empty.
\<close>

definition path_join :: "string \<Rightarrow> string \<Rightarrow> string" where
  "path_join a b =
     (let joined = (if a = [] then b else if b = [] then a else a @ ''/'' @ b)
      in if joined = [] then ''.'' else path_normalize joined)"

section \<open>The printer directory: the query\<close>

text \<open>
  \<open>getAllPrinters\<close>: two commands, then the parse; a failure of either command is
  caught and wrapped.
\<close>

definition getAllPrinters :: "world \<Rightarrow> (js_error + Printer list) \<times> world" where
  "getAllPrinters w =
     (case execAsync ''lpstat -p -d'' w of
        (Inl e, w1) \<Rightarrow> (Inl (Error (''Failed to get printers: '' @ message e) None), w1)
      | (Inr printerList, w1) \<Rightarrow>
          (case execAsync ''lpstat -v'' w1 of
             (Inl e, w2) \<Rightarrow> (Inl (Error (''Failed to get printers: '' @ message e) None), w2)
           | (Inr printerDevices, w2) \<Rightarrow>
               (Inr (printers_of_reports printerList printerDevices), w2)))"

section \<open>The image submitter\<close>

definition supportedFormats :: "string list" where
  "supportedFormats = [''.png'', ''.jpg'', ''.jpeg'', ''.gif'', ''.pdf'', ''.tiff'', ''.tif'']"

text \<open>
  \<open>validateImageFile\<close>: the access check comes first. The \<^verbatim>\<open>catch\<close> turns an
  error whose code is \<^verbatim>\<open>ENOENT\<close> into "File not found" and rethrows any other, the
  unsupported-format error (which has no code) included.
\<close>

definition validateImageFile :: "string \<Rightarrow> world \<Rightarrow> (js_error + unit) \<times> world" where
  "validateImageFile filePath w =
     (case fs_access filePath w of
        (Inl e, w1) \<Rightarrow>
          (if code e = Some ''ENOENT''
           then (Inl (Error (''File not found: '' @ filePath) None), w1)
           else (Inl e, w1))
      | (Inr u, w1) \<Rightarrow>
          (let ext = toLowerCase (extname filePath)
           in if ext \<notin> set supportedFormats
              then (Inl (Error (''Unsupported file format: '' @ ext @
                                ''. Supported formats: '' @ join '', '' supportedFormats)
                               None), w1)
              else (Inr (), w1)))"

text \<open>\<^verbatim>\<open>imagePathOrBuffer: string | Buffer\<close>.\<close>

datatype image_input = Path string | Buffer string

text \<open>The temporary path of lines 303 to 309.\<close>

definition temp_file_path :: "world \<Rightarrow> string" where
  "temp_file_path w =
     path_join (tmpdir w)
       (''print-temp-'' @ int_toString (now w) @ ''-'' @ random_id w @ ''.png'')"

text \<open>
  Lines 300 to 318, the input handling at the head of the \<^verbatim>\<open>try\<close> block. The result
  is the image path or the error thrown, together with the value of \<open>tempFilePath\<close>,
  which is assigned before the write is attempted.
\<close>

definition stage_input ::
  "image_input \<Rightarrow> world \<Rightarrow> (js_error + string) \<times> string option \<times> world" where
  "stage_input imagePathOrBuffer w =
     (case imagePathOrBuffer of
        Buffer content \<Rightarrow>
          (let tempFilePath = temp_file_path w
           in (case fs_writeFile tempFilePath content w of
                 (Inl e, w1) \<Rightarrow> (Inl e, Some tempFilePath, w1)
               | (Inr u, w1) \<Rightarrow> (Inr tempFilePath, Some tempFilePath, w1)))
      | Path filePath \<Rightarrow>
          (case validateImageFile filePath w of
             (Inl e, w1) \<Rightarrow> (Inl e, None, w1)
           | (Inr u, w1) \<Rightarrow> (Inr filePath, None, w1)))"

text \<open>
  Lines 331 to 334: \<^verbatim>\<open>jobMatch ? jobMatch[1] : stdout.trim()\<close>.
\<close>

definition extract_jobId :: "string \<Rightarrow> string" where
  "extract_jobId stdout =
     (case match_job stdout of
        Some digits \<Rightarrow> digits
      | None \<Rightarrow> trim stdout)"

text \<open>The \<^verbatim>\<open>try\<close> block of \<open>printImage\<close>.\<close>

definition printImage_try ::
  "string \<Rightarrow> image_input \<Rightarrow> PrintOptions \<Rightarrow> world \<Rightarrow>
     (js_error + string) \<times> string option \<times> world" where
  "printImage_try printerName imagePathOrBuffer options w =
     (case stage_input imagePathOrBuffer w of
        (Inl e, tempFilePath, w1) \<Rightarrow> (Inl e, tempFilePath, w1)
      | (Inr imagePath, tempFilePath, w1) \<Rightarrow>
          (case getAllPrinters w1 of
             (Inl e, w2) \<Rightarrow> (Inl e, tempFilePath, w2)
           | (Inr printers, w2) \<Rightarrow>
               (case find (\<lambda>p. name p = printerName) printers of
                  None \<Rightarrow>
                    (Inl (Error (''Printer not found: '' @ printerName) None), tempFilePath, w2)
                | Some printer \<Rightarrow>
                    (case execAsync (buildPrintCommand printerName imagePath options) w2 of
                       (Inl e, w3) \<Rightarrow> (Inl e, tempFilePath, w3)
                     | (Inr stdout, w3) \<Rightarrow> (Inr (extract_jobId stdout), tempFilePath, w3)))))"

text \<open>The \<^verbatim>\<open>finally\<close> block of \<open>printImage\<close>.\<close>

definition printImage_finally :: "string option \<Rightarrow> world \<Rightarrow> world" where
  "printImage_finally tempFilePath w =
     (case tempFilePath of
        None \<Rightarrow> w
      | Some p \<Rightarrow>
          if p = [] then w
          else (case fs_unlink p w of
                  (Inl e, w1) \<Rightarrow>
                    console_warn (''Warning: Could not delete temporary file: '' @ p) w1
                | (Inr u, w1) \<Rightarrow> w1))"

text \<open>
  \<open>printImage\<close>: the \<^verbatim>\<open>try\<close> block, the \<^verbatim>\<open>catch\<close> that wraps whatever was
  thrown, and the \<^verbatim>\<open>finally\<close> block, which runs on both paths.
\<close>

definition printImage ::
  "string \<Rightarrow> image_input \<Rightarrow> PrintOptions \<Rightarrow> world \<Rightarrow> (js_error + string) \<times> world" where
  "printImage printerName imagePathOrBuffer options w =
     (case printImage_try printerName imagePathOrBuffer options w of
        (Inl e, tempFilePath, w1) \<Rightarrow>
          (Inl (Error (''Failed to print: '' @ message e) None),
           printImage_finally tempFilePath w1)
      | (Inr jobId, tempFilePath, w1) \<Rightarrow>
          (Inr jobId, printImage_finally tempFilePath w1))"

text \<open>\<^verbatim>\<open>{ printerName, jobId }\<close>.\<close>

record print_receipt =
  printerName :: string
  jobId :: string

text \<open>\<open>printToUSB\<close>; it has no \<^verbatim>\<open>try\<close> of its own.\<close>

definition printToUSB ::
  "image_input \<Rightarrow> PrintOptions \<Rightarrow> world \<Rightarrow> (js_error + print_receipt) \<times> world" where
  "printToUSB imagePathOrBuffer options w =
     (case getAllPrinters w of
        (Inl e, w1) \<Rightarrow> (Inl e, w1)
      | (Inr allPrinters, w1) \<Rightarrow>
          if length allPrinters = 0 then (Inl (Error ''No printers found'' None), w1)
          else
            (let printer = (case find isDefault allPrinters of
                              Some p \<Rightarrow> p
                            | None \<Rightarrow> allPrinters ! 0)
             in (case printImage (name printer) imagePathOrBuffer options w1 of
                   (Inl e, w2) \<Rightarrow> (Inl e, w2)
                 | (Inr job, w2) \<Rightarrow>
                     (Inr \<lparr>printerName = name printer, jobId = job\<rparr>, w2))))"

section \<open>The printer state controller and its watcher\<close>

definition isPrinterEnabled :: "string \<Rightarrow> world \<Rightarrow> (js_error + bool) \<times> world" where
  "isPrinterEnabled pname w =
     (case execAsync (''lpstat -p '' @ quoted pname) w of
        (Inl e, w1) \<Rightarrow>
          (Inl (Error (''Failed to check printer status: '' @ message e) None), w1)
      | (Inr stdout, w1) \<Rightarrow>
          (let isDisabled = (str_includes (toLowerCase stdout) ''disabled'' \<or>
                             str_includes (toLowerCase stdout) ''paused'')
           in (Inr (\<not> isDisabled), w1)))"

definition enablePrinter :: "string \<Rightarrow> world \<Rightarrow> (js_error + string) \<times> world" where
  "enablePrinter pname w =
     (case execAsync (''cupsenable '' @ quoted pname) w of
        (Inl e, w1) \<Rightarrow> (Inl (Error (''Failed to enable printer: '' @ message e) None), w1)
      | (Inr out1, w1) \<Rightarrow>
          (case execAsync (''cupsaccept '' @ quoted pname) w1 of
             (Inl e, w2) \<Rightarrow>
               (Inl (Error (''Failed to enable printer: '' @ message e) None), w2)
           | (Inr out2, w2) \<Rightarrow>
               (Inr (''Printer '' @ quoted pname @
                     '' has been enabled and is now accepting jobs''), w2)))"

text \<open>
  The options of \<open>watchAndResumePrinters\<close>. A callback is the caller's code: it is
  given by what a call of it ends with, \<open>None\<close> when it returns and \<open>Some e\<close> when it
  throws \<open>e\<close>; each call is recorded in the history.
\<close>

record watch_options =
  interval :: "nat option"
  printerNames :: "string list option"
  onResume :: "(string \<Rightarrow> js_error option) option"
  onError :: "(js_error \<Rightarrow> js_error option) option"

text \<open>The flag \<open>isRunning\<close>: true until the stop handle is invoked.\<close>

definition isRunning :: "world \<Rightarrow> bool" where
  "isRunning w \<longleftrightarrow> \<not> stop_invoked w (trace w)"

text \<open>The loop \<^verbatim>\<open>for (const printer of printersToCheck)\<close> of a tick.\<close>

fun check_printers :: "watch_options \<Rightarrow> Printer list \<Rightarrow> world \<Rightarrow> (js_error + unit) \<times> world" where
  "check_printers options [] w = (Inr (), w)"
| "check_printers options (printer # rest) w =
     (case isPrinterEnabled (name printer) w of
        (Inl e, w1) \<Rightarrow> (Inl e, w1)
      | (Inr isEnabled, w1) \<Rightarrow>
          if isEnabled then check_printers options rest w1
          else
            (case enablePrinter (name printer) w1 of
               (Inl e, w2) \<Rightarrow> (Inl e, w2)
             | (Inr msg, w2) \<Rightarrow>
                 (case onResume options of
                    None \<Rightarrow> check_printers options rest w2
                  | Some callback \<Rightarrow>
                      (case callback (name printer) of
                         Some thrown \<Rightarrow> (Inl thrown, log_event (OnResume (name printer)) w2)
                       | None \<Rightarrow>
                           check_printers options rest
                             (log_event (OnResume (name printer)) w2)))))"

text \<open>The \<^verbatim>\<open>try\<close> block of a tick: the work.\<close>

definition check_work :: "watch_options \<Rightarrow> world \<Rightarrow> (js_error + unit) \<times> world" where
  "check_work options w =
     (case (case printerNames options of
              None \<Rightarrow> getAllPrinters w
            | Some names \<Rightarrow>
                if length names > 0
                then (case getAllPrinters w of
                        (Inl e, w1) \<Rightarrow> (Inl e, w1)
                      | (Inr allPrinters, w1) \<Rightarrow>
                          (Inr (filter (\<lambda>p. name p \<in> set names) allPrinters), w1))
                else getAllPrinters w) of
        (Inl e, w1) \<Rightarrow> (Inl e, w1)
      | (Inr printersToCheck, w1) \<Rightarrow> check_printers options printersToCheck w1)"

text \<open>
  How a tick ends: it found the watcher stopped at its start, it scheduled the next tick
  after the given interval, it found the watcher stopped at its end, or it was left by an
  error that nothing catches (the promise of \<open>check\<close> rejects, no tick is scheduled).
\<close>

datatype tick_end = NotRunning | Scheduled nat | Stopped | Rejected js_error

text \<open>The function \<open>check\<close> of \<open>watchAndResumePrinters\<close>: one tick.\<close>

definition check :: "watch_options \<Rightarrow> world \<Rightarrow> tick_end \<times> world" where
  "check options w =
     (if \<not> isRunning w then (NotRunning, w)
      else
        (case check_work options w of
           (r, w1) \<Rightarrow>
             (case (case r of
                      Inr u \<Rightarrow> (None, w1)
                    | Inl e \<Rightarrow>
                        (case onError options of
                           None \<Rightarrow> (None, w1)
                         | Some callback \<Rightarrow> (callback e, log_event (OnError e) w1))) of
                (Some thrown, w2) \<Rightarrow> (Rejected thrown, w2)
              | (None, w2) \<Rightarrow>
                  if isRunning w2
                  then (let ms = (case interval options of Some i \<Rightarrow> i | None \<Rightarrow> 1000)
                        in (Scheduled ms, log_event (SetTimeout ms) w2))
                  else (Stopped, w2))))"

text \<open>
  \<open>watchAndResumePrinters\<close> runs \<open>check\<close> once, and every scheduled tick runs it
  again; \<open>poll n\<close> is the watcher up to its \<open>n\<close>-th timer firing.
\<close>

fun poll :: "nat \<Rightarrow> watch_options \<Rightarrow> world \<Rightarrow> tick_end \<times> world" where
  "poll 0 options w = check options w"
| "poll (Suc n) options w =
     (case check options w of
        (Scheduled ms, w1) \<Rightarrow> poll n options w1
      | (NotRunning, w1) \<Rightarrow> (NotRunning, w1)
      | (Stopped, w1) \<Rightarrow> (Stopped, w1)
      | (Rejected e, w1) \<Rightarrow> (Rejected e, w1))"

section \<open>Reading the history\<close>

text \<open>The commands handed to \<^verbatim>\<open>exec\<close>, in order.\<close>

fun commands :: "event list \<Rightarrow> string list" where
  "commands [] = []"
| "commands (Exec command # evs) = command # commands evs"
| "commands (ev # evs) = commands evs"

text \<open>The paths \<^verbatim>\<open>fs.promises.access\<close> was called on, in order.\<close>

fun accesses :: "event list \<Rightarrow> string list" where
  "accesses [] = []"
| "accesses (Access path # evs) = path # accesses evs"
| "accesses (ev # evs) = accesses evs"

text \<open>\<^verbatim>\<open>s.endsWith(t)\<close>.\<close>

definition ends_with :: "string \<Rightarrow> string \<Rightarrow> bool" where
  "ends_with s t \<longleftrightarrow> starts_with (rev s) (rev t)"

section \<open>A world for the examples\<close>

text \<open>
  Two printers, the second one the default destination and on USB; a submission is
  acknowledged with request 42; any other command fails. Two files exist and are
  readable; access to a path below the regular file \<open>sticker.png\<close> fails with
  \<^verbatim>\<open>ENOTDIR\<close>, access to any other path with \<^verbatim>\<open>ENOENT\<close>.
\<close>

definition demo_printerList :: string where
  "demo_printerList =
     ''printer HP_LaserJet is idle.  enabled since Mon Nov  2 09:00:00 2026'' @ [CHR 0x0A] @
     ''printer Canon_TS3300 is idle.  enabled since Mon Nov  2 09:00:00 2026'' @ [CHR 0x0A] @
     ''system default destination: Canon_TS3300'' @ [CHR 0x0A]"

definition demo_printerDevices :: string where
  "demo_printerDevices =
     ''device for HP_LaserJet: ipp://hp.local/ipp/print'' @ [CHR 0x0A] @
     ''device for Canon_TS3300: usb://Canon/TS3300?serial=1A2B3C'' @ [CHR 0x0A]"

definition demo_shell :: "string \<Rightarrow> js_error + string" where
  "demo_shell command =
     (if command = ''lpstat -p -d'' then Inr demo_printerList
      else if command = ''lpstat -v'' then Inr demo_printerDevices
      else if starts_with command ''lp -d '' then
        Inr (''request id is Canon_TS3300-42 (1 file(s))'' @ [CHR 0x0A])
      else Inl (Error (''Command failed: '' @ command) None))"

definition demo_files :: "string \<Rightarrow> string option" where
  "demo_files = [''/home/u/sticker.png'' \<mapsto> ''PNG'', ''/home/u/notes.txt'' \<mapsto> ''hello'']"

definition demo_world :: world where
  "demo_world =
     \<lparr>files = demo_files,
      access_error =
        (\<lambda>path. case demo_files path of
                  Some content \<Rightarrow> None
                | None \<Rightarrow>
                    if starts_with path ''/home/u/sticker.png/''
                    then Some (Error (''ENOTDIR: not a directory, access '' @
                                      [CHR 0x27] @ path @ [CHR 0x27])
                                     (Some ''ENOTDIR''))
                    else Some (enoent ''access'' path)),
      write_error = (\<lambda>path. None),
      unlink_error = (\<lambda>path. None),
      shell = (\<lambda>history. demo_shell),
      tmpdir = ''/tmp'',
      now = 1762128000000,
      random_id = ''k3x9f'',
      stop_invoked = (\<lambda>history. False),
      trace = []\<rparr>"

text \<open>What the directory holds in that world.\<close>

definition demo_printers :: "Printer list" where
  "demo_printers =
     [\<lparr>name = ''HP_LaserJet'', uri = ''ipp://hp.local/ipp/print'',
       status = ''is idle.  enabled since Mon Nov  2 09:00:00 2026'',
       isDefault = False, isUSB = False,
       description = Some ''is idle.  enabled since Mon Nov  2 09:00:00 2026''\<rparr>,
      \<lparr>name = ''Canon_TS3300'', uri = ''usb://Canon/TS3300?serial=1A2B3C'',
       status = ''is idle.  enabled since Mon Nov  2 09:00:00 2026'',
       isDefault = True, isUSB = True,
       description = Some ''is idle.  enabled since Mon Nov  2 09:00:00 2026''\<rparr>]"

definition no_options :: PrintOptions where
  "no_options =
     \<lparr>copies = None, media = None, grayscale = None, fitToPage = None, cupOptions = None\<rparr>"

text \<open>The same world, with a submission command that answers without a request id.\<close>

definition terse_world :: world where
  "terse_world =
     demo_world\<lparr>shell :=
       (\<lambda>history command.
          if starts_with command ''lp -d '' then Inr (''  lp: job queued '' @ [CHR 0x0A])
          else demo_shell command)\<rparr>"


text \<open>The same world with the print subsystem down: every command fails.\<close>

definition down_world :: world where
  "down_world =
     demo_world\<lparr>shell := (\<lambda>history command. Inl (Error (''Command failed: '' @ command) None))\<rparr>"

text \<open>
  Two callers of the watcher, both watching all printers at the default interval: the
  error callback of the first records the error and returns, that of the second
  throws the error it is given.
\<close>

definition reporting_watch :: watch_options where
  "reporting_watch =
     \<lparr>interval = None, printerNames = None, onResume = None,
      onError = Some (\<lambda>e. None)\<rparr>"

definition rethrowing_watch :: watch_options where
  "rethrowing_watch =
     \<lparr>interval = None, printerNames = None, onResume = None,
      onError = Some (\<lambda>e. Some e)\<rparr>"

section \<open>The choice of \<open>printToUSB\<close>, in the words of the specification\<close>

text \<open>
  No printer when the list is empty; otherwise the default printer when there is one,
  else the first of the list.
\<close>

definition spec_select :: "Printer list \<Rightarrow> Printer option" where
  "spec_select ps =
     (case ps of
        [] \<Rightarrow> None
      | first # others \<Rightarrow>
          (case filter isDefault ps of
             [] \<Rightarrow> Some first
           | d # ds \<Rightarrow> Some d))"




section \<open>The reports, in the words of the specification\<close>

text \<open>
  The acknowledgement pattern \<^verbatim>\<open>request id is <name>-<digits>\<close>: \<open>out\<close> holds
  the fixed words, then a name (not empty, within one line), a hyphen, and the digit
  group \<open>d\<close> (not empty, and whole: no digit follows it).
\<close>

definition spec_request_id :: "string \<Rightarrow> string \<Rightarrow> bool" where
  "spec_request_id out d \<longleftrightarrow>
     (\<exists>pre nm post.
        out = pre @ ''request id is '' @ nm @ ''-'' @ d @ post \<and>
        nm \<noteq> [] \<and> \<not> list_ex is_line_terminator nm \<and>
        d \<noteq> [] \<and> list_all is_digit d \<and>
        (post = [] \<or> \<not> is_digit (hd post)))"

text \<open>
  \<open>out\<close> holds the pattern somewhere: the fixed words, a name, a hyphen and one digit
  at least.
\<close>

definition spec_pattern_occurs :: "string \<Rightarrow> bool" where
  "spec_pattern_occurs out \<longleftrightarrow>
     (\<exists>pre nm d post.
        out = pre @ ''request id is '' @ nm @ ''-'' @ d @ post \<and>
        nm \<noteq> [] \<and> \<not> list_ex is_line_terminator nm \<and>
        d \<noteq> [] \<and> list_all is_digit d)"

text \<open>A transport locator that contains \<open>usb\<close>, each letter in either case.\<close>

definition contains_usb_any_case :: "string \<Rightarrow> bool" where
  "contains_usb_any_case u \<longleftrightarrow>
     (\<exists>pre a b c post.
        u = pre @ [a, b, c] @ post \<and>
        (a = CHR ''u'' \<or> a = CHR ''U'') \<and>
        (b = CHR ''s'' \<or> b = CHR ''S'') \<and>
        (c = CHR ''b'' \<or> c = CHR ''B''))"


section \<open>The command line: flag order\<close>

text \<open>
  The order the specification gives, written as one list: destination, copies, media,
  grayscale, fit-to-page, the open-ended pairs, the file.
\<close>

definition spec_flags :: "string \<Rightarrow> string \<Rightarrow> PrintOptions \<Rightarrow> string list" where
  "spec_flags pname imagePath options =
     [''lp'', ''-d'', quoted pname]
     @ (case copies options of
          Some n \<Rightarrow> if n > 1 then [''-n'', int_toString n] else []
        | None \<Rightarrow> [])
     @ (case media options of
          Some m \<Rightarrow> if m = [] then [] else [''-o'', ''media='' @ m]
        | None \<Rightarrow> [])
     @ (if grayscale options = Some True then [''-o'', ''ColorModel=Gray''] else [])
     @ (if fitToPage options = Some True then [''-o'', ''fit-to-page''] else [])
     @ (case cupOptions options of
          Some entries \<Rightarrow> concat (map (\<lambda>(key, v). [''-o'', key @ ''='' @ v]) entries)
        | None \<Rightarrow> [])
     @ [quoted imagePath]"

section \<open>Facts about the history and the temporary path\<close>

lemma commands_append [simp]: "commands (xs @ ys) = commands xs @ commands ys"
  by (induction xs rule: commands.induct) auto

lemma accesses_append [simp]: "accesses (xs @ ys) = accesses xs @ accesses ys"
  by (induction xs rule: accesses.induct) auto

lemma starts_with_append: "starts_with (t @ s) t"
  by (induction t) auto

lemma ends_with_append: "ends_with (s @ t) t"
  by (simp add: ends_with_def starts_with_append)

lemma split_on_nonempty: "split_on sep s \<noteq> []"
  by (induction s) (auto split: list.splits)

lemma split_on_no_sep: "sep \<notin> set t \<Longrightarrow> split_on sep t = [t]"
  by (induction t) auto

lemma split_on_append_no_sep:
  "sep \<notin> set t \<Longrightarrow>
     split_on sep (s @ t) = butlast (split_on sep s) @ [last (split_on sep s) @ t]"
proof (induction s)
  case Nil
  then show ?case by (simp add: split_on_no_sep)
next
  case (Cons c s)
  obtain p ps where X: "split_on sep s = p # ps"
    using split_on_nonempty [of sep s] by (cases "split_on sep s") auto
  from Cons show ?case by (cases ps) (auto simp: X)
qed

lemma normalize_segments_snoc:
  "s \<noteq> [] \<Longrightarrow> s \<noteq> ''.'' \<Longrightarrow> s \<noteq> ''..'' \<Longrightarrow>
     normalize_segments a res (segs @ [s]) = normalize_segments a res segs @ [s]"
  by (induction segs arbitrary: res) auto

lemma join_snoc:
  "join sep (xs @ [s]) = (if xs = [] then s else join sep xs @ sep @ s)"
  by (induction sep xs rule: join.induct) auto

lemma path_normalize_png: "\<exists>y. path_normalize (x @ ''.png'') = y @ ''.png''"
proof -
  let ?X = "split_on CHR ''/'' x"
  let ?s = "last ?X @ ''.png''"
  let ?a = "hd (x @ ''.png'') \<noteq> CHR ''/''"
  have sp: "split_on CHR ''/'' (x @ ''.png'') = butlast ?X @ [?s]"
    by (rule split_on_append_no_sep) simp
  have s1: "?s \<noteq> []" by simp
  have "length ?s \<ge> 4" by simp
  then have s2: "?s \<noteq> ''.''" and s3: "?s \<noteq> ''..''" by auto
  let ?N = "normalize_segments ?a [] (butlast ?X)"
  have n: "normalize_segments ?a [] (split_on CHR ''/'' (x @ ''.png'')) = ?N @ [?s]"
    unfolding sp by (rule normalize_segments_snoc [OF s1 s2 s3])
  obtain b where b: "join ''/'' (?N @ [?s]) = b @ ''.png''"
    by (cases "?N = []") (auto simp: join_snoc)
  then have bne: "join ''/'' (?N @ [?s]) \<noteq> []" by simp
  have l: "last (x @ ''.png'') \<noteq> CHR ''/''" by simp
  show ?thesis
    using b bne l by (auto simp: path_normalize_def Let_def n)
qed

lemma path_join_png: "\<exists>y. path_join a (n @ ''.png'') = y @ ''.png''"
proof -
  have "path_join a (n @ ''.png'') =
          path_normalize ((if a = [] then n else a @ ''/'' @ n) @ ''.png'')"
    by (simp add: path_join_def Let_def)
  with path_normalize_png [of "if a = [] then n else a @ ''/'' @ n"] show ?thesis
    by (simp only:)
qed

lemma temp_file_path_png: "ends_with (temp_file_path w) ''.png''"
proof -
  from path_join_png [of "tmpdir w" "''print-temp-'' @ int_toString (now w) @ ''-'' @ random_id w"]
  obtain y where "temp_file_path w = y @ ''.png''"
    by (auto simp: temp_file_path_def)
  then show ?thesis by (simp only: ends_with_append)
qed

lemma temp_file_path_nonempty: "temp_file_path w \<noteq> []"
  using temp_file_path_png [of w] by (auto simp: ends_with_def)

lemma join_supportedFormats:
  "join '', '' supportedFormats = ''.png, .jpg, .jpeg, .gif, .pdf, .tiff, .tif''"
  by (simp add: supportedFormats_def)

lemma commands_log_Access [simp]: "commands (trace (log_event (Access p) w)) = commands (trace w)"
  by (simp add: log_event_def)

lemma stage_input_commands:
  "stage_input input w = (r, t, w1) \<Longrightarrow> commands (trace w1) = commands (trace w)"
  by (auto simp: stage_input_def validateImageFile_def fs_access_def fs_writeFile_def
        log_event_def Let_def split: image_input.splits sum.splits option.splits if_splits)

lemma finally_commands:
  "commands (trace (printImage_finally t w)) = commands (trace w)"
  by (simp add: printImage_finally_def fs_unlink_def console_warn_def log_event_def
        split: option.split sum.split)

lemma printImage_fst:
  "fst (printImage pname input options w) =
     (case fst (printImage_try pname input options w) of
        Inl e \<Rightarrow> Inl (Error (''Failed to print: '' @ message e) None)
      | Inr job \<Rightarrow> Inr job)"
  by (simp add: printImage_def split: prod.splits sum.splits)

section \<open>The directory query, step by step\<close>

lemma getAllPrinters_ok:
  "getAllPrinters w = (Inr ps, w') \<Longrightarrow>
     w' = w\<lparr>trace := trace w @ [Exec ''lpstat -p -d'', Exec ''lpstat -v'']\<rparr>"
  by (auto simp: getAllPrinters_def execAsync_def log_event_def split: sum.splits)

lemma getAllPrinters_cases:
  "getAllPrinters w = (r, w1) \<Longrightarrow>
     (\<exists>e. r = Inl e \<and> (w1 = w\<lparr>trace := trace w @ [Exec ''lpstat -p -d'']\<rparr> \<or>
                       w1 = w\<lparr>trace := trace w @ [Exec ''lpstat -p -d'', Exec ''lpstat -v'']\<rparr>))
     \<or> (\<exists>ps. r = Inr ps \<and> w1 = w\<lparr>trace := trace w @ [Exec ''lpstat -p -d'', Exec ''lpstat -v'']\<rparr>)"
  by (auto simp: getAllPrinters_def execAsync_def log_event_def split: sum.splits)

lemma getAllPrinters_reports:
  assumes "getAllPrinters w = (Inr ps, w')"
  shows "\<exists>l d. shell w (trace w) ''lpstat -p -d'' = Inr l \<and>
               shell w (trace w @ [Exec ''lpstat -p -d'']) ''lpstat -v'' = Inr d \<and>
               ps = printers_of_reports l d"
proof (cases "shell w (trace w) ''lpstat -p -d''")
  case (Inl e)
  with assms show ?thesis by (simp add: getAllPrinters_def execAsync_def)
next
  case l: (Inr l)
  show ?thesis
  proof (cases "shell w (trace w @ [Exec ''lpstat -p -d'']) ''lpstat -v''")
    case (Inl e)
    with assms l show ?thesis by (simp add: getAllPrinters_def execAsync_def log_event_def)
  next
    case (Inr d)
    with assms l show ?thesis by (simp add: getAllPrinters_def execAsync_def log_event_def)
  qed
qed

lemma getAllPrinters_demo:
  "getAllPrinters demo_world =
     (Inr (printers_of_reports demo_printerList demo_printerDevices),
      snd (getAllPrinters demo_world))"
  by (simp add: getAllPrinters_def execAsync_def demo_world_def demo_shell_def log_event_def)

lemma printers_demo: "printers_of_reports demo_printerList demo_printerDevices = demo_printers"
  by code_simp

lemma find_None_names: "find (\<lambda>p. name p = n) ps = None \<longleftrightarrow> n \<notin> set (map name ps)"
  by (auto simp: find_None_iff)

section \<open>Facts about the matcher\<close>

lemma after_prefix_Some: "after_prefix lit s = Some r \<longleftrightarrow> s = lit @ r"
  by (induction lit s rule: after_prefix.induct) auto

lemma regex_search_Some:
  "regex_search m s = Some r \<Longrightarrow> \<exists>pre suf. s = pre @ suf \<and> m suf = Some r"
proof (induction s)
  case Nil
  then show ?case by auto
next
  case (Cons c s)
  show ?case
  proof (cases "m (c # s)")
    case (Some r')
    with Cons.prems have "m (c # s) = Some r" by simp
    then show ?thesis by (intro exI [of _ "[]"] exI [of _ "c # s"]) simp
  next
    case None
    with Cons.prems have "regex_search m s = Some r" by simp
    from Cons.IH [OF this] obtain pre suf where "s = pre @ suf" "m suf = Some r" by blast
    then show ?thesis by (intro exI [of _ "c # pre"] exI [of _ suf]) simp
  qed
qed

lemma regex_search_None:
  "regex_search m (pre @ suf) = None \<Longrightarrow> m suf = None"
proof (induction pre)
  case Nil
  then show ?case by (cases suf) (auto split: option.splits)
next
  case (Cons c pre)
  then show ?case by (auto split: option.splits)
qed

section \<open>Validation of a path input\<close>

lemma validateImageFile_missing:
  "access_error w p = Some e \<Longrightarrow> code e = Some ''ENOENT'' \<Longrightarrow>
     validateImageFile p w = (Inl (Error (''File not found: '' @ p) None), log_event (Access p) w)"
  by (simp add: validateImageFile_def fs_access_def)

lemma validateImageFile_refused:
  "access_error w p = Some e \<Longrightarrow> code e \<noteq> Some ''ENOENT'' \<Longrightarrow>
     validateImageFile p w = (Inl e, log_event (Access p) w)"
  by (simp add: validateImageFile_def fs_access_def)

lemma validateImageFile_unsupported:
  "access_error w p = None \<Longrightarrow>
   toLowerCase (extname p) \<notin> set supportedFormats \<Longrightarrow>
     validateImageFile p w =
       (Inl (Error (''Unsupported file format: '' @ toLowerCase (extname p) @
                    ''. Supported formats: .png, .jpg, .jpeg, .gif, .pdf, .tiff, .tif'') None),
        log_event (Access p) w)"
  by (simp add: validateImageFile_def fs_access_def join_supportedFormats)

lemma validateImageFile_bad_extension:
  "toLowerCase (extname p) \<notin> set supportedFormats \<Longrightarrow>
     \<exists>e. validateImageFile p w = (Inl e, log_event (Access p) w)"
  by (simp add: validateImageFile_def fs_access_def split: option.split)

lemma printImage_validation_failure:
  "validateImageFile p w = (Inl e, w1) \<Longrightarrow>
     printImage pname (Path p) options w =
       (Inl (Error (''Failed to print: '' @ message e) None), w1)"
  by (simp add: printImage_def printImage_try_def stage_input_def printImage_finally_def)

text \<open>
  C1, as the code has it. \<open>validateImageFile\<close> checks access before the extension. So
  for a path input: when access fails because nothing is there (\<^verbatim>\<open>ENOENT\<close>), the
  call fails with "File not found", whatever the extension; when access fails for another
  reason (\<^verbatim>\<open>ENOTDIR\<close>, \<^verbatim>\<open>EACCES\<close>, ...), the call fails with that error;
  when the path is readable and its lower-cased extension is outside the allow-list, the
  call fails with "Unsupported file format"; and every path whose extension is outside
  the allow-list fails with some error. In all four cases \<open>printImage\<close> has issued no
  command at all when it fails.
\<close>

theorem path_validation:
  assumes "printImage pname (Path filePath) options w = (r, w')"
  shows "(access_error w filePath = Some e \<and> code e = Some ''ENOENT'' \<longrightarrow>
            r = Inl (Error (''Failed to print: File not found: '' @ filePath) None) \<and>
            commands (trace w') = commands (trace w))
       \<and> (access_error w filePath = Some e \<and> code e \<noteq> Some ''ENOENT'' \<longrightarrow>
            r = Inl (Error (''Failed to print: '' @ message e) None) \<and>
            commands (trace w') = commands (trace w))
       \<and> (access_error w filePath = None \<and>
          toLowerCase (extname filePath) \<notin> set supportedFormats \<longrightarrow>
            r = Inl (Error (''Failed to print: Unsupported file format: '' @
                            toLowerCase (extname filePath) @
                            ''. Supported formats: .png, .jpg, .jpeg, .gif, .pdf, .tiff, .tif'')
                     None) \<and>
            commands (trace w') = commands (trace w))
       \<and> (toLowerCase (extname filePath) \<notin> set supportedFormats \<longrightarrow>
            (\<exists>e. r = Inl e) \<and> commands (trace w') = commands (trace w))"
proof (intro conjI impI)
  assume h: "access_error w filePath = Some e \<and> code e = Some ''ENOENT''"
  then have "validateImageFile filePath w =
      (Inl (Error (''File not found: '' @ filePath) None), log_event (Access filePath) w)"
    by (simp add: validateImageFile_missing)
  from printImage_validation_failure [OF this] assms
  show "r = Inl (Error (''Failed to print: File not found: '' @ filePath) None)"
    and "commands (trace w') = commands (trace w)"
    by auto
next
  assume h: "access_error w filePath = Some e \<and> code e \<noteq> Some ''ENOENT''"
  then have "validateImageFile filePath w = (Inl e, log_event (Access filePath) w)"
    by (simp add: validateImageFile_refused)
  from printImage_validation_failure [OF this] assms
  show "r = Inl (Error (''Failed to print: '' @ message e) None)"
    and "commands (trace w') = commands (trace w)"
    by auto
next
  assume h: "access_error w filePath = None \<and>
          toLowerCase (extname filePath) \<notin> set supportedFormats"
  then have "validateImageFile filePath w =
       (Inl (Error (''Unsupported file format: '' @ toLowerCase (extname filePath) @
                    ''. Supported formats: .png, .jpg, .jpeg, .gif, .pdf, .tiff, .tif'') None),
        log_event (Access filePath) w)"
    by (simp add: validateImageFile_unsupported)
  from printImage_validation_failure [OF this] assms
  show "r = Inl (Error (''Failed to print: Unsupported file format: '' @
                            toLowerCase (extname filePath) @
                            ''. Supported formats: .png, .jpg, .jpeg, .gif, .pdf, .tiff, .tif'')
                     None)"
    and "commands (trace w') = commands (trace w)"
    by auto
next
  assume "toLowerCase (extname filePath) \<notin> set supportedFormats"
  from validateImageFile_bad_extension [OF this, of w]
  obtain e where "validateImageFile filePath w = (Inl e, log_event (Access filePath) w)" by blast
  from printImage_validation_failure [OF this] assms
  show "\<exists>e. r = Inl e" and "commands (trace w') = commands (trace w)"
    by auto
qed

text \<open>
  The theorem at three paths of the example world: one with an allowed extension where
  nothing is, one below a regular file, and one that is readable with the extension
  \<open>.txt\<close>.
\<close>

theorem path_validation_witness:
  "(access_error demo_world ''/home/u/missing.png'' =
      Some (enoent ''access'' ''/home/u/missing.png'') \<and>
    fst (printImage ''Canon_TS3300'' (Path ''/home/u/missing.png'') no_options demo_world) =
      Inl (Error ''Failed to print: File not found: /home/u/missing.png'' None)) \<and>
   (code (the (access_error demo_world ''/home/u/sticker.png/x.png'')) = Some ''ENOTDIR'' \<and>
    fst (printImage ''Canon_TS3300'' (Path ''/home/u/sticker.png/x.png'') no_options demo_world) =
      Inl (Error (''Failed to print: ENOTDIR: not a directory, access '' @
                  [CHR 0x27] @ ''/home/u/sticker.png/x.png'' @ [CHR 0x27]) None)) \<and>
   (access_error demo_world ''/home/u/notes.txt'' = None \<and>
    toLowerCase (extname ''/home/u/notes.txt'') \<notin> set supportedFormats \<and>
    fst (printImage ''Canon_TS3300'' (Path ''/home/u/notes.txt'') no_options demo_world) =
      Inl (Error ''Failed to print: Unsupported file format: .txt. Supported formats: .png, .jpg, .jpeg, .gif, .pdf, .tiff, .tif'' None) \<and>
    commands (trace (snd (printImage ''Canon_TS3300'' (Path ''/home/u/notes.txt'') no_options
                            demo_world))) = [])"
proof -
  have m: "access_error demo_world ''/home/u/missing.png'' =
             Some (enoent ''access'' ''/home/u/missing.png'')" by code_simp
  have mc: "code (enoent ''access'' ''/home/u/missing.png'') = Some ''ENOENT''" by code_simp
  have d: "access_error demo_world ''/home/u/sticker.png/x.png'' =
             Some (Error (''ENOTDIR: not a directory, access '' @
                          [CHR 0x27] @ ''/home/u/sticker.png/x.png'' @ [CHR 0x27])
                         (Some ''ENOTDIR''))" by code_simp
  have h: "access_error demo_world ''/home/u/notes.txt'' = None \<and>
           toLowerCase (extname ''/home/u/notes.txt'') \<notin> set supportedFormats" by code_simp
  have e: "toLowerCase (extname ''/home/u/notes.txt'') = ''.txt''" by code_simp
  have t: "commands (trace demo_world) = []" by code_simp
  from path_validation [where pname = "''Canon_TS3300''" and filePath = "''/home/u/missing.png''"
         and options = no_options and w = demo_world
         and e = "enoent ''access'' ''/home/u/missing.png''", OF prod.collapse [symmetric]] m mc
  have 1: "fst (printImage ''Canon_TS3300'' (Path ''/home/u/missing.png'') no_options demo_world) =
      Inl (Error ''Failed to print: File not found: /home/u/missing.png'' None)"
    by simp
  from path_validation [where pname = "''Canon_TS3300''"
         and filePath = "''/home/u/sticker.png/x.png''"
         and options = no_options and w = demo_world
         and e = "Error (''ENOTDIR: not a directory, access '' @
                          [CHR 0x27] @ ''/home/u/sticker.png/x.png'' @ [CHR 0x27])
                         (Some ''ENOTDIR'')", OF prod.collapse [symmetric]] d
  have 2: "fst (printImage ''Canon_TS3300'' (Path ''/home/u/sticker.png/x.png'') no_options
                  demo_world) =
      Inl (Error (''Failed to print: ENOTDIR: not a directory, access '' @
                  [CHR 0x27] @ ''/home/u/sticker.png/x.png'' @ [CHR 0x27]) None)"
    by simp
  from path_validation [where pname = "''Canon_TS3300''" and filePath = "''/home/u/notes.txt''"
         and options = no_options and w = demo_world, OF prod.collapse [symmetric]] h e t
  have 3: "fst (printImage ''Canon_TS3300'' (Path ''/home/u/notes.txt'') no_options demo_world) =
      Inl (Error ''Failed to print: Unsupported file format: .txt. Supported formats: .png, .jpg, .jpeg, .gif, .pdf, .tiff, .tif'' None) \<and>
    commands (trace (snd (printImage ''Canon_TS3300'' (Path ''/home/u/notes.txt'') no_options
                            demo_world))) = []"
    by simp
  from d have dc: "code (the (access_error demo_world ''/home/u/sticker.png/x.png'')) =
                     Some ''ENOTDIR''" by simp
  from m h 1 2 3 dc show ?thesis by blast
qed

text \<open>
  C1 as it is stated fails: at the path \<open>/home/u/missing.txt\<close>, whose extension is
  outside the allow-list, nothing is there, and the submission fails with "File not
  found", not with "Unsupported file format".
\<close>

theorem path_validation_counterexample:
  "toLowerCase (extname ''/home/u/missing.txt'') = ''.txt'' \<and>
   ''.txt'' \<notin> set supportedFormats \<and>
   access_error demo_world ''/home/u/missing.txt'' =
     Some (enoent ''access'' ''/home/u/missing.txt'') \<and>
   fst (printImage ''Canon_TS3300'' (Path ''/home/u/missing.txt'') no_options demo_world) =
     Inl (Error ''Failed to print: File not found: /home/u/missing.txt'' None)"
  by code_simp

section \<open>A printer that is not in the directory\<close>

text \<open>
  C2. Take any submission, path or buffer, whose input handling succeeds and whose
  directory query, performed inside \<open>printImage\<close>, returns a list without the target
  name. Then \<open>printImage\<close> fails with "Printer not found", and the only commands the call
  has issued are the two listing commands of the query: no submission command.
\<close>

theorem printer_not_found:
  assumes "fst (stage_input input w) = Inr imagePath"
    and "fst (getAllPrinters (snd (snd (stage_input input w)))) = Inr printers"
    and "pname \<notin> set (map name printers)"
  shows "fst (printImage pname input options w) =
           Inl (Error (''Failed to print: Printer not found: '' @ pname) None) \<and>
         commands (trace (snd (printImage pname input options w))) =
           commands (trace w) @ [''lpstat -p -d'', ''lpstat -v'']"
proof -
  obtain tempFilePath w1 where st: "stage_input input w = (Inr imagePath, tempFilePath, w1)"
    using assms(1) by (cases "stage_input input w") auto
  obtain w2 where g: "getAllPrinters w1 = (Inr printers, w2)"
    using assms(2) st by (cases "getAllPrinters w1") auto
  from assms(3) have nf: "find (\<lambda>p. name p = pname) printers = None"
    by (simp add: find_None_names)
  from g have w2: "w2 = w1\<lparr>trace := trace w1 @ [Exec ''lpstat -p -d'', Exec ''lpstat -v'']\<rparr>"
    by (rule getAllPrinters_ok)
  have p: "printImage pname input options w =
          (Inl (Error (''Failed to print: Printer not found: '' @ pname) None),
           printImage_finally tempFilePath w2)"
    by (simp add: printImage_def printImage_try_def st g nf)
  from stage_input_commands [OF st] have "commands (trace w1) = commands (trace w)" .
  with p w2 show ?thesis by (simp add: finally_commands)
qed

text \<open>The theorem in the example world, for a buffer sent to a printer that is not listed.\<close>

theorem printer_not_found_witness:
  "fst (stage_input (Buffer ''abc'') demo_world) = Inr ''/tmp/print-temp-1762128000000-k3x9f.png'' \<and>
   ''Epson'' \<notin> set (map name (printers_of_reports demo_printerList demo_printerDevices)) \<and>
   fst (printImage ''Epson'' (Buffer ''abc'') no_options demo_world) =
     Inl (Error ''Failed to print: Printer not found: Epson'' None) \<and>
   commands (trace (snd (printImage ''Epson'' (Buffer ''abc'') no_options demo_world))) =
     [''lpstat -p -d'', ''lpstat -v'']"
proof -
  have a: "fst (stage_input (Buffer ''abc'') demo_world) =
             Inr ''/tmp/print-temp-1762128000000-k3x9f.png''" by code_simp
  have b: "fst (getAllPrinters (snd (snd (stage_input (Buffer ''abc'') demo_world)))) =
             Inr (printers_of_reports demo_printerList demo_printerDevices)" by code_simp
  have c: "''Epson'' \<notin> set (map name (printers_of_reports demo_printerList demo_printerDevices))"
    by code_simp
  have t: "commands (trace demo_world) = []" by code_simp
  from printer_not_found [OF a b c, of no_options] a c t show ?thesis by simp
qed

section \<open>The temporary file of a buffer input\<close>

lemma try_buffer:
  assumes "printImage_try pname (Buffer content) options w = (r, t, w1)"
  shows "t = Some (temp_file_path w) \<and> unlink_error w1 = unlink_error w \<and>
         (\<exists>cs. trace w1 = trace w @ WriteFile (temp_file_path w) content # map Exec cs \<and>
               (write_error w (temp_file_path w) \<noteq> None \<longrightarrow> cs = []))"
proof (cases "write_error w (temp_file_path w)")
  case (Some e)
  with assms show ?thesis
    by (auto simp: printImage_try_def stage_input_def fs_writeFile_def log_event_def Let_def)
next
  case None
  define w0 where "w0 = log_event (WriteFile (temp_file_path w) content)
                          (w\<lparr>files := (files w)(temp_file_path w \<mapsto> content)\<rparr>)"
  have st: "stage_input (Buffer content) w = (Inr (temp_file_path w), Some (temp_file_path w), w0)"
    by (simp add: stage_input_def fs_writeFile_def None w0_def Let_def)
  obtain g w2 where g: "getAllPrinters w0 = (g, w2)" by (cases "getAllPrinters w0")
  from assms have "(case g of
            Inl e \<Rightarrow> (Inl e, Some (temp_file_path w), w2)
          | Inr printers \<Rightarrow>
              (case find (\<lambda>p. name p = pname) printers of
                 None \<Rightarrow> (Inl (Error (''Printer not found: '' @ pname) None),
                          Some (temp_file_path w), w2)
               | Some printer \<Rightarrow>
                   (case execAsync (buildPrintCommand pname (temp_file_path w) options) w2 of
                      (Inl e, w3) \<Rightarrow> (Inl e, Some (temp_file_path w), w3)
                    | (Inr stdout, w3) \<Rightarrow>
                        (Inr (extract_jobId stdout), Some (temp_file_path w), w3)))) = (r, t, w1)"
    by (simp add: printImage_try_def st g split: sum.split)
  with getAllPrinters_cases [OF g] show ?thesis
    by (auto simp: execAsync_def log_event_def w0_def None Cons_eq_map_conv
          split: sum.splits option.splits)
qed

lemma finally_temp:
  assumes "p \<noteq> []"
  shows "(trace (printImage_finally (Some p) w) = trace w @ [Unlink p] \<or>
          trace (printImage_finally (Some p) w) =
            trace w @ [Unlink p, Warn (''Warning: Could not delete temporary file: '' @ p)])
       \<and> (unlink_error w p = None \<longrightarrow> files (printImage_finally (Some p) w) p = None)"
  using assms
  by (auto simp: printImage_finally_def fs_unlink_def console_warn_def log_event_def
      split: option.splits)





section \<open>The job identifier\<close>

lemma greedy_to_dash_sound:
  "greedy_to_dash s = Some d \<Longrightarrow>
     \<exists>a b. s = a @ ''-'' @ d @ b \<and> \<not> list_ex is_line_terminator a \<and>
           d \<noteq> [] \<and> list_all is_digit d \<and> (b = [] \<or> \<not> is_digit (hd b))"
proof (induction s)
  case Nil
  then show ?case by simp
next
  case (Cons c s)
  show ?case
  proof (cases "\<not> is_line_terminator c \<and> greedy_to_dash s \<noteq> None")
    case True
    with Cons.prems have "greedy_to_dash s = Some d" by auto
    from Cons.IH [OF this] obtain a b where
      "s = a @ ''-'' @ d @ b" "\<not> list_ex is_line_terminator a" "d \<noteq> []" "list_all is_digit d"
      "b = [] \<or> \<not> is_digit (hd b)"
      by blast
    with True show ?thesis by (intro exI [of _ "c # a"] exI [of _ b]) simp
  next
    case False
    with Cons.prems have c: "c = CHR ''-''" and d: "d = takeWhile is_digit s" and ne: "d \<noteq> []"
      by (auto split: if_splits option.splits)
    have "s = d @ dropWhile is_digit s" by (simp add: d)
    moreover have "list_all is_digit d" by (simp add: d list_all_iff) (meson set_takeWhileD)
    moreover have "dropWhile is_digit s = [] \<or> \<not> is_digit (hd (dropWhile is_digit s))"
      using hd_dropWhile [of is_digit s] by blast
    ultimately show ?thesis using c ne
      by (intro exI [of _ "[]"] exI [of _ "dropWhile is_digit s"]) simp
  qed
qed

lemma greedy_to_dash_complete:
  "\<not> list_ex is_line_terminator a \<Longrightarrow> d \<noteq> [] \<Longrightarrow> list_all is_digit d \<Longrightarrow>
     greedy_to_dash (a @ ''-'' @ d @ b) \<noteq> None"
proof (induction a)
  case Nil
  then obtain x d' where "d = x # d'" "is_digit x" by (cases d) auto
  then show ?case by (auto split: option.splits)
next
  case (Cons c a)
  then show ?case by (auto split: option.splits)
qed

lemma job_at_sound:
  assumes "job_at s = Some d"
  shows "\<exists>nm post. s = ''request id is '' @ nm @ ''-'' @ d @ post \<and> nm \<noteq> [] \<and>
               \<not> list_ex is_line_terminator nm \<and> d \<noteq> [] \<and> list_all is_digit d \<and>
               (post = [] \<or> \<not> is_digit (hd post))"
proof -
  from assms obtain x where x: "after_prefix ''request id is '' s = Some x"
    by (cases "after_prefix ''request id is '' s") (auto simp: job_at_def)
  with assms obtain c r where xr: "x = c # r"
    by (cases x) (auto simp: job_at_def)
  from assms x xr have c: "\<not> is_line_terminator c" and g: "greedy_to_dash r = Some d"
    by (auto simp: job_at_def split: if_splits)
  from greedy_to_dash_sound [OF g] obtain a' b where
    r: "r = a' @ ''-'' @ d @ b" and h: "\<not> list_ex is_line_terminator a'" "d \<noteq> []"
       "list_all is_digit d" "b = [] \<or> \<not> is_digit (hd b)"
    by blast
  from x have "s = ''request id is '' @ x" by (simp only: after_prefix_Some)
  with xr r have "s = ''request id is '' @ (c # a') @ ''-'' @ d @ b" by simp
  with c h show ?thesis by (intro exI [of _ "c # a'"] exI [of _ b]) simp
qed

lemma job_at_complete:
  assumes "nm \<noteq> []" "\<not> list_ex is_line_terminator nm" "d \<noteq> []" "list_all is_digit d"
  shows "job_at (''request id is '' @ nm @ ''-'' @ d @ post) \<noteq> None"
proof -
  from assms obtain c a where nm: "nm = c # a" "\<not> is_line_terminator c"
    "\<not> list_ex is_line_terminator a" by (cases nm) auto
  have "after_prefix ''request id is '' (''request id is '' @ (c # a @ ''-'' @ d @ post)) =
          Some (c # a @ ''-'' @ d @ post)"
    by (simp only: after_prefix_Some)
  then have ap: "after_prefix ''request id is '' (''request id is '' @ nm @ ''-'' @ d @ post) =
          Some (c # a @ ''-'' @ d @ post)"
    by (simp add: nm)
  from greedy_to_dash_complete [OF nm(3) assms(3,4), of post]
  have "greedy_to_dash (a @ ''-'' @ d @ post) \<noteq> None" .
  with nm show ?thesis unfolding job_at_def ap by simp
qed

lemma match_job_sound:
  assumes "match_job out = Some d"
  shows "spec_request_id out d"
proof -
  from assms have "regex_search job_at out = Some d" by (simp only: match_job_def)
  from regex_search_Some [OF this] obtain pre suf where
    out: "out = pre @ suf" and j: "job_at suf = Some d" by blast
  from job_at_sound [OF j] obtain nm post where
    suf: "suf = ''request id is '' @ nm @ ''-'' @ d @ post" and
    h: "nm \<noteq> []" "\<not> list_ex is_line_terminator nm" "d \<noteq> []" "list_all is_digit d"
       "post = [] \<or> \<not> is_digit (hd post)"
    by blast
  show ?thesis
    unfolding spec_request_id_def
    using out suf h by (intro exI [of _ pre] exI [of _ nm] exI [of _ post]) simp
qed

lemma match_job_complete:
  assumes "spec_pattern_occurs out"
  shows "match_job out \<noteq> None"
proof
  assume n: "match_job out = None"
  from assms obtain pre nm d post where
    out: "out = pre @ (''request id is '' @ nm @ ''-'' @ d @ post)"
    and h: "nm \<noteq> []" "\<not> list_ex is_line_terminator nm" "d \<noteq> []" "list_all is_digit d"
    unfolding spec_pattern_occurs_def by auto
  from n have "job_at (''request id is '' @ nm @ ''-'' @ d @ post) = None"
    unfolding match_job_def out by (rule regex_search_None)
  with job_at_complete [OF h, of post] show False by simp
qed

lemma spec_request_id_occurs: "spec_request_id out d \<Longrightarrow> spec_pattern_occurs out"
  unfolding spec_request_id_def spec_pattern_occurs_def by blast

lemma extract_jobId_match:
  "spec_pattern_occurs out \<Longrightarrow> spec_request_id out (extract_jobId out)"
proof -
  assume "spec_pattern_occurs out"
  then have "match_job out \<noteq> None" by (rule match_job_complete)
  then obtain d where d: "match_job out = Some d"
    by (cases "match_job out") auto
  then have "extract_jobId out = d" by (simp add: extract_jobId_def)
  with match_job_sound [OF d] show ?thesis by simp
qed

lemma extract_jobId_no_match:
  "\<not> spec_pattern_occurs out \<Longrightarrow> extract_jobId out = trim out"
proof -
  assume n: "\<not> spec_pattern_occurs out"
  have "match_job out = None"
  proof (cases "match_job out")
    case None
    then show ?thesis .
  next
    case (Some d)
    from spec_request_id_occurs [OF match_job_sound [OF Some]] n show ?thesis by simp
  qed
  then show ?thesis by (simp add: extract_jobId_def)
qed

lemma stage_input_shell:
  "stage_input input w = (r, t, w1) \<Longrightarrow> shell w1 = shell w"
  by (auto simp: stage_input_def validateImageFile_def fs_access_def fs_writeFile_def
        log_event_def Let_def split: image_input.splits sum.splits option.splits if_splits)

lemma printImage_returns_extraction:
  assumes st: "fst (stage_input input w) = Inr imagePath"
    and g: "fst (getAllPrinters (snd (snd (stage_input input w)))) = Inr printers"
    and m: "pname \<in> set (map name printers)"
    and sh: "shell w (trace (snd (getAllPrinters (snd (snd (stage_input input w))))))
               (buildPrintCommand pname imagePath options) = Inr out"
  shows "fst (printImage pname input options w) = Inr (extract_jobId out)"
proof -
  obtain tmp w1 where s1: "stage_input input w = (Inr imagePath, tmp, w1)"
    using st by (cases "stage_input input w") auto
  obtain w2 where s2: "getAllPrinters w1 = (Inr printers, w2)"
    using g s1 by (cases "getAllPrinters w1") auto
  from m obtain p where f: "find (\<lambda>p. name p = pname) printers = Some p"
    by (cases "find (\<lambda>p. name p = pname) printers") (auto simp: find_None_names)
  from getAllPrinters_ok [OF s2] have "shell w2 = shell w1" by simp
  with stage_input_shell [OF s1] have "shell w2 = shell w" by simp
  with sh s1 s2 have e: "fst (execAsync (buildPrintCommand pname imagePath options) w2) = Inr out"
    by (simp add: execAsync_def)
  have "fst (printImage_try pname input options w) = Inr (extract_jobId out)"
    using e by (auto simp: printImage_try_def s1 s2 f split: prod.splits sum.splits)
  then show ?thesis by (simp add: printImage_fst)
qed

lemma printImage_job_origin:
  assumes "printImage pname input options w = (Inr job, w')"
  shows "\<exists>h imagePath stdout.
        shell w h (buildPrintCommand pname imagePath options) = Inr stdout \<and>
        job = extract_jobId stdout"
proof -
  obtain r t w1 where trb: "printImage_try pname input options w = (r, t, w1)"
    by (cases "printImage_try pname input options w")
  with assms have r: "r = Inr job" by (auto simp: printImage_def split: sum.splits)
  obtain s tmp w0 where st: "stage_input input w = (s, tmp, w0)"
    by (cases "stage_input input w")
  with trb r obtain imagePath where s: "s = Inr imagePath"
    by (cases s) (auto simp: printImage_try_def)
  obtain g w2 where g: "getAllPrinters w0 = (g, w2)" by (cases "getAllPrinters w0")
  with trb r st s obtain ps where ps: "g = Inr ps"
    by (cases g) (auto simp: printImage_try_def)
  from trb r st s g ps obtain stdout where
    e: "fst (execAsync (buildPrintCommand pname imagePath options) w2) = Inr stdout"
    and j: "job = extract_jobId stdout"
    by (auto simp: printImage_try_def split: option.splits sum.splits prod.splits)
  from getAllPrinters_ok [OF g [unfolded ps]] have "shell w2 = shell w0" by simp
  with stage_input_shell [OF st] have "shell w2 = shell w" by simp
  with e have "shell w (trace w2) (buildPrintCommand pname imagePath options) = Inr stdout"
    by (simp add: execAsync_def)
  with j show ?thesis by blast
qed

text \<open>
  C4. For every output \<open>out\<close> of the submission command: when \<open>out\<close> holds the pattern
  \<^verbatim>\<open>request id is <name>-<digits>\<close>, the extracted job identifier is the whole
  digit group of an occurrence of it; when \<open>out\<close> does not hold the pattern, the
  extracted identifier is \<open>out\<close> trimmed. And \<open>printImage\<close> returns this extraction:
  whenever the input handling succeeds, the directory lists the printer and the
  submission command answers \<open>out\<close>, the call succeeds with the identifier extracted
  from \<open>out\<close>; and every identifier the call returns is extracted from an answer of
  the submission command.
\<close>

theorem job_id_extraction:
  "(spec_pattern_occurs out \<longrightarrow> spec_request_id out (extract_jobId out)) \<and>
   (\<not> spec_pattern_occurs out \<longrightarrow> extract_jobId out = trim out) \<and>
   (fst (stage_input input w) = Inr imagePath \<and>
    fst (getAllPrinters (snd (snd (stage_input input w)))) = Inr printers \<and>
    pname \<in> set (map name printers) \<and>
    shell w (trace (snd (getAllPrinters (snd (snd (stage_input input w))))))
      (buildPrintCommand pname imagePath options) = Inr out \<longrightarrow>
      fst (printImage pname input options w) = Inr (extract_jobId out)) \<and>
   (printImage pname input options w = (Inr job, w') \<longrightarrow>
      (\<exists>h imagePath stdout.
         shell w h (buildPrintCommand pname imagePath options) = Inr stdout \<and>
         job = extract_jobId stdout))"
proof (intro conjI impI)
  assume "spec_pattern_occurs out"
  then show "spec_request_id out (extract_jobId out)" by (rule extract_jobId_match)
next
  assume "\<not> spec_pattern_occurs out"
  then show "extract_jobId out = trim out" by (rule extract_jobId_no_match)
next
  assume "fst (stage_input input w) = Inr imagePath \<and>
    fst (getAllPrinters (snd (snd (stage_input input w)))) = Inr printers \<and>
    pname \<in> set (map name printers) \<and>
    shell w (trace (snd (getAllPrinters (snd (snd (stage_input input w))))))
      (buildPrintCommand pname imagePath options) = Inr out"
  then show "fst (printImage pname input options w) = Inr (extract_jobId out)"
    using printImage_returns_extraction by blast
next
  assume "printImage pname input options w = (Inr job, w')"
  then show "\<exists>h imagePath stdout.
         shell w h (buildPrintCommand pname imagePath options) = Inr stdout \<and>
         job = extract_jobId stdout"
    by (rule printImage_job_origin)
qed

text \<open>
  The theorem in two worlds. In the example world the submission command answers the
  acknowledgement of the specification, and \<open>printImage\<close> returns \<open>42\<close>. In the world
  whose submission command answers without a request id, \<open>printImage\<close> returns that
  answer trimmed.
\<close>

theorem job_id_extraction_witness:
  "spec_request_id (''request id is Canon_TS3300-42 (1 file(s))'' @ [CHR 0x0A]) ''42'' \<and>
   fst (printImage ''Canon_TS3300'' (Path ''/home/u/sticker.png'') no_options demo_world) =
     Inr ''42'' \<and>
   fst (printImage ''Canon_TS3300'' (Path ''/home/u/sticker.png'') no_options terse_world) =
     Inr ''lp: job queued''"
proof -
  let ?ack = "''request id is Canon_TS3300-42 (1 file(s))'' @ [CHR 0x0A]"
  let ?terse = "''  lp: job queued '' @ [CHR 0x0A]"
  let ?cmd = "buildPrintCommand ''Canon_TS3300'' ''/home/u/sticker.png'' no_options"
  have m: "match_job ?ack = Some ''42''" by code_simp
  have x: "extract_jobId ?ack = ''42''" by code_simp
  have n: "match_job ?terse = None" by code_simp
  have t: "trim ?terse = ''lp: job queued''" by code_simp
  from spec_request_id_occurs [OF match_job_sound [OF m]] have o: "spec_pattern_occurs ?ack" .
  from n match_job_complete [of ?terse] have no: "\<not> spec_pattern_occurs ?terse" by blast
  have d1: "fst (stage_input (Path ''/home/u/sticker.png'') demo_world) =
              Inr ''/home/u/sticker.png''" by code_simp
  have d2: "fst (getAllPrinters (snd (snd (stage_input (Path ''/home/u/sticker.png'')
              demo_world)))) = Inr demo_printers" by code_simp
  have d3: "''Canon_TS3300'' \<in> set (map name demo_printers)" by code_simp
  have d4: "shell demo_world
              (trace (snd (getAllPrinters (snd (snd (stage_input (Path ''/home/u/sticker.png'')
                 demo_world)))))) ?cmd = Inr ?ack" by code_simp
  have t1: "fst (stage_input (Path ''/home/u/sticker.png'') terse_world) =
              Inr ''/home/u/sticker.png''" by code_simp
  have t2: "fst (getAllPrinters (snd (snd (stage_input (Path ''/home/u/sticker.png'')
              terse_world)))) = Inr demo_printers" by code_simp
  have t4: "shell terse_world
              (trace (snd (getAllPrinters (snd (snd (stage_input (Path ''/home/u/sticker.png'')
                 terse_world)))))) ?cmd = Inr ?terse" by code_simp
  note a = job_id_extraction [where out = ?ack and input = "Path ''/home/u/sticker.png''"
             and w = demo_world and imagePath = "''/home/u/sticker.png''"
             and printers = demo_printers and pname = "''Canon_TS3300''"
             and options = no_options and job = "[]" and w' = demo_world]
  note b = job_id_extraction [where out = ?terse and input = "Path ''/home/u/sticker.png''"
             and w = terse_world and imagePath = "''/home/u/sticker.png''"
             and printers = demo_printers and pname = "''Canon_TS3300''"
             and options = no_options and job = "[]" and w' = demo_world]
  from a [THEN conjunct1, rule_format, OF o] x
  have 1: "spec_request_id ?ack ''42''" by (simp only:)
  from a [THEN conjunct2, THEN conjunct2, THEN conjunct1, rule_format, OF conjI [OF d1 conjI [OF d2 conjI [OF d3 d4]]]] x
  have 2: "fst (printImage ''Canon_TS3300'' (Path ''/home/u/sticker.png'') no_options
                  demo_world) = Inr ''42''" by (simp only:)
  from b [THEN conjunct2, THEN conjunct1, rule_format, OF no] t
  have y: "extract_jobId ?terse = ''lp: job queued''" by (simp only:)
  from b [THEN conjunct2, THEN conjunct2, THEN conjunct1, rule_format, OF conjI [OF t1 conjI [OF t2 conjI [OF d3 t4]]]] y
  have 3: "fst (printImage ''Canon_TS3300'' (Path ''/home/u/sticker.png'') no_options
                  terse_world) = Inr ''lp: job queued''" by (simp only:)
  from 1 2 3 show ?thesis by (intro conjI)
qed

lemma push_cupOptions_concat:
  "push_cupOptions args entries =
     args @ concat (map (\<lambda>(key, v). [''-o'', key @ ''='' @ v]) entries)"
  by (induction entries arbitrary: args) auto

text \<open>
  C5. For every printer name, image path and options value, \<open>buildPrintCommand\<close> joins
  by single spaces the arguments in the order: \<open>lp\<close>, the destination, copies (only
  when greater than one), media (only when set, and not empty), the fixed grayscale flag
  (only when set), the fixed fit-to-page flag (only when set), each open-ended pair as
  \<open>-o key=value\<close> in the iteration order of the mapping, and the quoted file path.
\<close>

theorem buildPrintCommand_flag_order:
  "buildPrintCommand pname imagePath options = join '' '' (spec_flags pname imagePath options)"
  by (simp add: buildPrintCommand_def spec_flags_def Let_def push_cupOptions_concat
           split: option.split)

section \<open>Submitting to the first available printer\<close>

lemma find_filter: "find P xs = (case filter P xs of [] \<Rightarrow> None | x # ys \<Rightarrow> Some x)"
  by (induction xs) auto

lemma spec_select_find:
  "spec_select ps =
     (if length ps = 0 then None
      else Some (case find isDefault ps of Some p \<Rightarrow> p | None \<Rightarrow> ps ! 0))"
  by (cases ps) (auto simp: spec_select_def find_filter split: list.splits)

text \<open>
  C6. When the directory query of \<open>printToUSB\<close> returns a list: an empty list makes it
  fail with "No printers found"; otherwise it takes the default printer when there is
  one, else the first printer of the list, delegates the submission to \<open>printImage\<close>
  with that printer's name, and returns that name with the job identifier.
\<close>

theorem printToUSB_selection:
  assumes "getAllPrinters w = (Inr allPrinters, w1)"
  shows "printToUSB input options w =
     (case spec_select allPrinters of
        None \<Rightarrow> (Inl (Error ''No printers found'' None), w1)
      | Some printer \<Rightarrow>
          (case printImage (name printer) input options w1 of
             (Inl e, w2) \<Rightarrow> (Inl e, w2)
           | (Inr job, w2) \<Rightarrow> (Inr \<lparr>printerName = name printer, jobId = job\<rparr>, w2)))"
  by (simp add: printToUSB_def assms spec_select_find Let_def)

text \<open>
  The theorem in the example world: \<open>HP_LaserJet\<close> is listed first, the default
  destination is \<open>Canon_TS3300\<close>, and \<open>Canon_TS3300\<close> is selected.
\<close>

theorem printToUSB_selection_witness:
  "map name (printers_of_reports demo_printerList demo_printerDevices) =
     [''HP_LaserJet'', ''Canon_TS3300''] \<and>
   match_default demo_printerList = Some ''Canon_TS3300'' \<and>
   fst (printToUSB (Buffer ''abc'') no_options demo_world) =
     Inr \<lparr>printerName = ''Canon_TS3300'', jobId = ''42''\<rparr>"
proof -
  have n: "map name (printers_of_reports demo_printerList demo_printerDevices) =
     [''HP_LaserJet'', ''Canon_TS3300'']" by code_simp
  have d: "match_default demo_printerList = Some ''Canon_TS3300''" by code_simp
  have g: "getAllPrinters demo_world =
             (Inr (printers_of_reports demo_printerList demo_printerDevices),
              snd (getAllPrinters demo_world))"
    by (simp add: getAllPrinters_def execAsync_def demo_world_def demo_shell_def log_event_def)
  have e: "fst (case spec_select (printers_of_reports demo_printerList demo_printerDevices) of
        None \<Rightarrow> (Inl (Error ''No printers found'' None), snd (getAllPrinters demo_world))
      | Some printer \<Rightarrow>
          (case printImage (name printer) (Buffer ''abc'') no_options
                  (snd (getAllPrinters demo_world)) of
             (Inl e, w2) \<Rightarrow> (Inl e, w2)
           | (Inr job, w2) \<Rightarrow> (Inr \<lparr>printerName = name printer, jobId = job\<rparr>, w2))) =
       Inr \<lparr>printerName = ''Canon_TS3300'', jobId = ''42''\<rparr>"
    by code_simp
  from printToUSB_selection [OF g, of "Buffer ''abc''" no_options] e
  have "fst (printToUSB (Buffer ''abc'') no_options demo_world) =
     Inr \<lparr>printerName = ''Canon_TS3300'', jobId = ''42''\<rparr>"
    by simp
  with n d show ?thesis by simp
qed

section \<open>The default flag\<close>









section \<open>The USB flag\<close>

lemma starts_with_iff: "starts_with s t \<longleftrightarrow> (\<exists>post. s = t @ post)"
  by (induction s t rule: starts_with.induct) auto

lemma str_includes_iff: "str_includes s t \<longleftrightarrow> (\<exists>pre post. s = pre @ t @ post)"
proof (induction s)
  case Nil
  then show ?case by auto
next
  case (Cons c s)
  show ?case
  proof
    assume "str_includes (c # s) t"
    then consider "starts_with (c # s) t" | "str_includes s t" by auto
    then show "\<exists>pre post. c # s = pre @ t @ post"
    proof cases
      case 1
      then obtain post where "c # s = t @ post" unfolding starts_with_iff by blast
      then show ?thesis by (intro exI [of _ "[]"] exI [of _ post]) simp
    next
      case 2
      with Cons.IH obtain pre post where "s = pre @ t @ post" by blast
      then show ?thesis by (intro exI [of _ "c # pre"] exI [of _ post]) simp
    qed
  next
    assume "\<exists>pre post. c # s = pre @ t @ post"
    then obtain pre post where e: "c # s = pre @ t @ post" by blast
    show "str_includes (c # s) t"
    proof (cases pre)
      case Nil
      with e have "starts_with (c # s) t" unfolding starts_with_iff by auto
      then show ?thesis by simp
    next
      case (Cons x pre')
      with e have "s = pre' @ t @ post" by simp
      with Cons.IH have "str_includes s t" by blast
      then show ?thesis by simp
    qed
  qed
qed

lemma lower_char_u: "lower_char x = CHR ''u'' \<longleftrightarrow> x = CHR ''u'' \<or> x = CHR ''U''"
  by (simp add: lower_char_def upper_letters_def lower_letters_def split: if_splits)

lemma lower_char_s: "lower_char x = CHR ''s'' \<longleftrightarrow> x = CHR ''s'' \<or> x = CHR ''S''"
  by (simp add: lower_char_def upper_letters_def lower_letters_def split: if_splits)

lemma lower_char_b: "lower_char x = CHR ''b'' \<longleftrightarrow> x = CHR ''b'' \<or> x = CHR ''B''"
  by (simp add: lower_char_def upper_letters_def lower_letters_def split: if_splits)

lemma usb_any_case:
  "str_includes (toLowerCase u) ''usb'' \<longleftrightarrow> contains_usb_any_case u"
proof
  assume "str_includes (toLowerCase u) ''usb''"
  then have "\<exists>pre post. map lower_char u = pre @ ''usb'' @ post"
    by (simp only: str_includes_iff toLowerCase_def)
  then obtain pre post where "map lower_char u = pre @ (''usb'' @ post)"
    by blast
  then have "\<exists>us vs. u = us @ vs \<and> pre = map lower_char us \<and>
                     ''usb'' @ post = map lower_char vs"
    by (simp only: map_eq_append_conv)
  then obtain us vs where u: "u = us @ vs" and vs: "''usb'' @ post = map lower_char vs"
    by blast
  from vs have "\<exists>a b c q. vs = a # b # c # q \<and> lower_char a = CHR ''u'' \<and>
                  lower_char b = CHR ''s'' \<and> lower_char c = CHR ''b''"
    by (auto simp: Cons_eq_map_conv)
  then obtain a b c q where q: "vs = a # b # c # q" and
    l: "lower_char a = CHR ''u''" "lower_char b = CHR ''s''" "lower_char c = CHR ''b''"
    by blast
  from l have "(a = CHR ''u'' \<or> a = CHR ''U'') \<and> (b = CHR ''s'' \<or> b = CHR ''S'') \<and>
               (c = CHR ''b'' \<or> c = CHR ''B'')"
    by (simp only: lower_char_u lower_char_s lower_char_b)
  moreover from u q have "u = us @ [a, b, c] @ q" by simp
  ultimately have "\<exists>pre a b c post.
        u = pre @ [a, b, c] @ post \<and>
        (a = CHR ''u'' \<or> a = CHR ''U'') \<and>
        (b = CHR ''s'' \<or> b = CHR ''S'') \<and>
        (c = CHR ''b'' \<or> c = CHR ''B'')"
    by (intro exI [of _ us] exI [of _ a] exI [of _ b] exI [of _ c] exI [of _ q]) simp
  then show "contains_usb_any_case u"
    by (simp only: contains_usb_any_case_def)
next
  assume "contains_usb_any_case u"
  then have "\<exists>pre a b c post.
        u = pre @ [a, b, c] @ post \<and>
        (a = CHR ''u'' \<or> a = CHR ''U'') \<and>
        (b = CHR ''s'' \<or> b = CHR ''S'') \<and>
        (c = CHR ''b'' \<or> c = CHR ''B'')"
    by (simp only: contains_usb_any_case_def)
  then obtain pre a b c post where u: "u = pre @ [a, b, c] @ post" and
    l: "a = CHR ''u'' \<or> a = CHR ''U''" "b = CHR ''s'' \<or> b = CHR ''S''"
       "c = CHR ''b'' \<or> c = CHR ''B''"
    by (elim exE conjE)
  from l have "lower_char a = CHR ''u''" "lower_char b = CHR ''s''" "lower_char c = CHR ''b''"
    by (simp_all only: lower_char_u lower_char_s lower_char_b)
  with u have "toLowerCase u = map lower_char pre @ ''usb'' @ map lower_char post"
    by (simp add: toLowerCase_def)
  then have "\<exists>pre post. toLowerCase u = pre @ ''usb'' @ post"
    by (intro exI [of _ "map lower_char pre"] exI [of _ "map lower_char post"])
  then show "str_includes (toLowerCase u) ''usb''"
    by (simp only: str_includes_iff)
qed

lemma device_of_usb:
  "device_of dls n = (u, b) \<Longrightarrow> b = str_includes (toLowerCase u) ''usb''"
  by (auto simp: device_of_def toLowerCase_def split: option.splits if_splits)

lemma parse_printers_usb:
  "\<forall>p\<in>set acc. isUSB p = str_includes (toLowerCase (uri p)) ''usb'' \<Longrightarrow>
   \<forall>p\<in>set (parse_printers dp dls lines acc).
      isUSB p = str_includes (toLowerCase (uri p)) ''usb''"
proof (induction lines arbitrary: acc)
  case Nil
  then show ?case by simp
next
  case (Cons line lines)
  show ?case
  proof (cases "match_printer line")
    case None
    with Cons show ?thesis by simp
  next
    case (Some m)
    obtain pn st where m: "m = (pn, st)" by (cases m)
    obtain u b where d: "device_of dls pn = (u, b)" by (cases "device_of dls pn")
    from device_of_usb [OF d] have b: "b = str_includes (toLowerCase u) ''usb''" .
    let ?acc = "acc @ [\<lparr>name = pn, uri = u, status = (if st = [] then ''unknown'' else st),
                     isDefault = (pn = dp), isUSB = b,
                     description = Some (if st = [] then ''unknown'' else st)\<rparr>]"
    have "\<forall>p\<in>set ?acc. isUSB p = str_includes (toLowerCase (uri p)) ''usb''"
      using Cons.prems b by auto
    from Cons.IH [OF this] show ?thesis
      by (simp add: Some m d Let_def)
  qed
qed


text \<open>
  C8. For every record that \<open>getAllPrinters\<close> returns, the \<open>isUSB\<close> flag is set
  exactly when the record's transport locator contains \<open>usb\<close>, each letter in either
  case. The empty locator, which a record gets when no device line matches, contains
  nothing, so its flag is not set.
\<close>

theorem isUSB_iff:
  assumes "getAllPrinters w = (Inr printers, w')" and "p \<in> set printers"
  shows "isUSB p \<longleftrightarrow> contains_usb_any_case (uri p)"
proof -
  from getAllPrinters_reports [OF assms(1)] obtain l d where
    "printers = printers_of_reports l d" by blast
  with assms(2) have "p \<in> set (parse_printers
           (case match_default l of Some p \<Rightarrow> p | None \<Rightarrow> [])
           (split_on CHR 0x0A d) (split_on CHR 0x0A l) [])"
    by (simp add: printers_of_reports_def Let_def)
  moreover have "\<forall>p\<in>set (parse_printers
           (case match_default l of Some p \<Rightarrow> p | None \<Rightarrow> [])
           (split_on CHR 0x0A d) (split_on CHR 0x0A l) []).
             isUSB p = str_includes (toLowerCase (uri p)) ''usb''"
    by (rule parse_printers_usb) simp
  ultimately have "isUSB p = str_includes (toLowerCase (uri p)) ''usb''" by blast
  then show ?thesis by (simp only: usb_any_case)
qed

text \<open>The theorem at the two records of the example world.\<close>

theorem isUSB_iff_witness:
  "contains_usb_any_case ''usb://Canon/TS3300?serial=1A2B3C'' \<and>
   \<not> contains_usb_any_case ''ipp://hp.local/ipp/print''"
proof -
  note g = getAllPrinters_demo [unfolded printers_demo]
  have c: "\<lparr>name = ''Canon_TS3300'', uri = ''usb://Canon/TS3300?serial=1A2B3C'',
       status = ''is idle.  enabled since Mon Nov  2 09:00:00 2026'',
       isDefault = True, isUSB = True,
       description = Some ''is idle.  enabled since Mon Nov  2 09:00:00 2026''\<rparr>
       \<in> set demo_printers" by (simp add: demo_printers_def)
  have h: "\<lparr>name = ''HP_LaserJet'', uri = ''ipp://hp.local/ipp/print'',
       status = ''is idle.  enabled since Mon Nov  2 09:00:00 2026'',
       isDefault = False, isUSB = False,
       description = Some ''is idle.  enabled since Mon Nov  2 09:00:00 2026''\<rparr>
       \<in> set demo_printers" by (simp add: demo_printers_def)
  from isUSB_iff [OF g c] have 1: "contains_usb_any_case ''usb://Canon/TS3300?serial=1A2B3C''"
    by simp
  from isUSB_iff [OF g h] have 2: "\<not> contains_usb_any_case ''ipp://hp.local/ipp/print''"
    by simp
  from 1 2 show ?thesis by (rule conjI)
qed

section \<open>The watcher\<close>

lemma execAsync_stop [simp]: "stop_invoked (snd (execAsync c w)) = stop_invoked w"
  by (simp add: execAsync_def log_event_def)

lemma getAllPrinters_stop [simp]: "stop_invoked (snd (getAllPrinters w)) = stop_invoked w"
  by (simp add: getAllPrinters_def execAsync_def log_event_def split: sum.split)

lemma isPrinterEnabled_stop [simp]:
  "stop_invoked (snd (isPrinterEnabled n w)) = stop_invoked w"
  by (simp add: isPrinterEnabled_def execAsync_def log_event_def Let_def split: sum.split)

lemma enablePrinter_stop [simp]:
  "stop_invoked (snd (enablePrinter n w)) = stop_invoked w"
  by (simp add: enablePrinter_def execAsync_def log_event_def split: sum.split)

lemma check_printers_stop [simp]:
  "stop_invoked (snd (check_printers options ps w)) = stop_invoked w"
proof (induction ps arbitrary: w)
  case Nil
  then show ?case by simp
next
  case (Cons p ps)
  obtain r1 w1 where e: "isPrinterEnabled (name p) w = (r1, w1)"
    by (cases "isPrinterEnabled (name p) w")
  from isPrinterEnabled_stop [of "name p" w] e have s1: "stop_invoked w1 = stop_invoked w"
    by simp
  obtain r2 w2 where n: "enablePrinter (name p) w1 = (r2, w2)"
    by (cases "enablePrinter (name p) w1")
  from enablePrinter_stop [of "name p" w1] n s1 have s2: "stop_invoked w2 = stop_invoked w"
    by simp
  show ?case
    using s1 s2 Cons.IH
    by (simp add: e n log_event_def split: sum.split option.split)
qed

lemma check_work_stop [simp]:
  "stop_invoked (snd (check_work options w)) = stop_invoked w"
proof -
  obtain g w1 where g: "getAllPrinters w = (g, w1)" by (cases "getAllPrinters w")
  from getAllPrinters_stop [of w] g have s1: "stop_invoked w1 = stop_invoked w" by simp
  have "\<And>ps. stop_invoked (snd (check_printers options ps w1)) = stop_invoked w"
    using s1 by simp
  then show ?thesis
    using s1 by (simp add: check_work_def g split: option.split sum.split)
qed

lemma never_stopped_running:
  "\<forall>h. \<not> stop_invoked w h \<Longrightarrow> stop_invoked w' = stop_invoked w \<Longrightarrow> isRunning w'"
  by (simp add: isRunning_def)

lemma check_never_stopped:
  assumes ns: "\<forall>h. \<not> stop_invoked w h"
    and cb: "\<forall>f err. onError options = Some f \<longrightarrow> f err = None"
  shows "fst (check options w) = Scheduled (case interval options of Some i \<Rightarrow> i | None \<Rightarrow> 1000)
       \<and> stop_invoked (snd (check options w)) = stop_invoked w"
proof -
  obtain r w1 where cw: "check_work options w = (r, w1)" by (cases "check_work options w")
  from check_work_stop [of options w] cw have s1: "stop_invoked w1 = stop_invoked w" by simp
  have run: "isRunning w" using ns by (simp add: isRunning_def)
  have run1: "isRunning w1" using ns s1 by (rule never_stopped_running)
  have run2: "\<And>e. isRunning (log_event (OnError e) w1)"
    using ns s1 by (simp add: isRunning_def log_event_def)
  show ?thesis
  proof (cases r)
    case (Inr u)
    then show ?thesis using run run1 s1 by (simp add: check_def cw Let_def log_event_def)
  next
    case (Inl e)
    show ?thesis
    proof (cases "onError options")
      case None
      then show ?thesis using Inl run run1 s1 by (simp add: check_def cw Let_def log_event_def)
    next
      case (Some f)
      with cb have "f e = None" by blast
      then show ?thesis using Inl Some run run2 [of e] s1
        by (simp add: check_def cw Let_def log_event_def)
    qed
  qed
qed

lemma poll_never_stopped:
  assumes cb: "\<forall>f err. onError options = Some f \<longrightarrow> f err = None"
  shows "\<forall>h. \<not> stop_invoked w h \<Longrightarrow>
     fst (poll n options w) = Scheduled (case interval options of Some i \<Rightarrow> i | None \<Rightarrow> 1000)"
proof (induction n arbitrary: w)
  case 0
  from check_never_stopped [OF 0 cb] show ?case by simp
next
  case (Suc n)
  obtain r w1 where c: "check options w = (r, w1)" by (cases "check options w")
  from check_never_stopped [OF Suc.prems cb] c
  have r: "r = Scheduled (case interval options of Some i \<Rightarrow> i | None \<Rightarrow> 1000)"
    and s: "stop_invoked w1 = stop_invoked w" by simp_all
  from Suc.prems s have "\<forall>h. \<not> stop_invoked w1 h" by simp
  from Suc.IH [OF this] show ?case by (simp add: c r)
qed

text \<open>
  C9, as the code has it. Take a tick that starts while the watcher is running and whose
  work raises an error \<open>e\<close> (while listing the printers, checking or resuming one, or
  in the resume callback). With no error callback, the tick ends as it would without the
  error: it schedules the next tick unless the stop handle has been invoked. With an
  error callback, the callback is called with \<open>e\<close> right after the work, and when it
  returns the tick ends in the same way. So a watcher whose stop handle is never invoked
  and whose error callback always returns has scheduled the next tick after every tick,
  whatever the commands answer.
\<close>

theorem tick_isolation:
  "(isRunning w \<and> check_work options w = (Inl e, w1) \<longrightarrow>
      (onError options = None \<longrightarrow>
         check options w =
           (if isRunning w1
            then (Scheduled (case interval options of Some i \<Rightarrow> i | None \<Rightarrow> 1000),
                  log_event (SetTimeout (case interval options of Some i \<Rightarrow> i | None \<Rightarrow> 1000)) w1)
            else (Stopped, w1))) \<and>
      (\<forall>f. onError options = Some f \<longrightarrow>
         (\<exists>rest. trace (snd (check options w)) = trace w1 @ OnError e # rest) \<and>
         (f e = None \<longrightarrow>
            check options w =
              (if isRunning (log_event (OnError e) w1)
               then (Scheduled (case interval options of Some i \<Rightarrow> i | None \<Rightarrow> 1000),
                     log_event (SetTimeout (case interval options of Some i \<Rightarrow> i | None \<Rightarrow> 1000))
                       (log_event (OnError e) w1))
               else (Stopped, log_event (OnError e) w1))))) \<and>
   ((\<forall>h. \<not> stop_invoked w h) \<and> (\<forall>f err. onError options = Some f \<longrightarrow> f err = None) \<longrightarrow>
      fst (poll n options w) =
        Scheduled (case interval options of Some i \<Rightarrow> i | None \<Rightarrow> 1000))"
proof (intro conjI impI allI)
  assume a: "isRunning w \<and> check_work options w = (Inl e, w1)" and n: "onError options = None"
  then show "check options w =
           (if isRunning w1
            then (Scheduled (case interval options of Some i \<Rightarrow> i | None \<Rightarrow> 1000),
                  log_event (SetTimeout (case interval options of Some i \<Rightarrow> i | None \<Rightarrow> 1000)) w1)
            else (Stopped, w1))"
    by (simp add: check_def Let_def)
next
  fix f
  assume a: "isRunning w \<and> check_work options w = (Inl e, w1)" and s: "onError options = Some f"
  show "\<exists>rest. trace (snd (check options w)) = trace w1 @ OnError e # rest"
  proof (cases "f e")
    case None
    with a s show ?thesis
      by (cases "isRunning (log_event (OnError e) w1)")
         (simp_all add: check_def Let_def log_event_def)
  next
    case (Some thrown)
    with a s show ?thesis by (simp add: check_def Let_def log_event_def)
  qed
next
  fix f
  assume a: "isRunning w \<and> check_work options w = (Inl e, w1)" and s: "onError options = Some f"
    and r: "f e = None"
  then show "check options w =
              (if isRunning (log_event (OnError e) w1)
               then (Scheduled (case interval options of Some i \<Rightarrow> i | None \<Rightarrow> 1000),
                     log_event (SetTimeout (case interval options of Some i \<Rightarrow> i | None \<Rightarrow> 1000))
                       (log_event (OnError e) w1))
               else (Stopped, log_event (OnError e) w1))"
    by (simp add: check_def Let_def)
next
  assume "(\<forall>h. \<not> stop_invoked w h) \<and> (\<forall>f err. onError options = Some f \<longrightarrow> f err = None)"
  then show "fst (poll n options w) =
        Scheduled (case interval options of Some i \<Rightarrow> i | None \<Rightarrow> 1000)"
    using poll_never_stopped by blast
qed


text \<open>
  The theorem with the print subsystem down and an error callback that returns: every
  tick fails to list the printers, reports it, and schedules the next tick.
\<close>

theorem tick_isolation_witness:
  "isRunning down_world \<and>
   fst (check_work reporting_watch down_world) =
     Inl (Error ''Failed to get printers: Command failed: lpstat -p -d'' None) \<and>
   fst (check reporting_watch down_world) = Scheduled 1000 \<and>
   fst (poll 5 reporting_watch down_world) = Scheduled 1000"
proof -
  let ?e = "Error ''Failed to get printers: Command failed: lpstat -p -d'' None"
  let ?w1 = "snd (check_work reporting_watch down_world)"
  have run: "isRunning down_world" by code_simp
  have f: "fst (check_work reporting_watch down_world) = Inl ?e" by code_simp
  then have cw: "check_work reporting_watch down_world = (Inl ?e, ?w1)"
    by (metis prod.collapse)
  have cb: "onError reporting_watch = Some (\<lambda>e. None)" by (simp add: reporting_watch_def)
  have iv: "interval reporting_watch = None" by (simp add: reporting_watch_def)
  have run2: "isRunning (log_event (OnError ?e) ?w1)" by code_simp
  have ns: "\<forall>h. \<not> stop_invoked down_world h" by (simp add: down_world_def demo_world_def)
  have ok: "\<forall>f err. onError reporting_watch = Some f \<longrightarrow> f err = None"
    by (simp add: reporting_watch_def)
  note t = tick_isolation [where w = down_world and options = reporting_watch and e = ?e
             and ?w1.0 = ?w1 and n = 5]
  from t [THEN conjunct1, rule_format, OF conjI [OF run cw], THEN conjunct2, rule_format,
          OF cb, THEN conjunct2, rule_format, OF refl] run2 iv
  have 1: "fst (check reporting_watch down_world) = Scheduled 1000" by simp
  from t [THEN conjunct2, rule_format, OF conjI [OF ns ok]] iv
  have 2: "fst (poll 5 reporting_watch down_world) = Scheduled 1000" by simp
  from run f 1 2 show ?thesis by (intro conjI)
qed

text \<open>
  C9 as it is stated fails: with the print subsystem down and an error callback that
  throws, the tick's error is passed to the callback, the stop handle has not been
  invoked when the tick ends, and yet no next tick is scheduled: the watcher is over.
\<close>

theorem tick_isolation_counterexample:
  "isRunning down_world \<and>
   fst (check_work rethrowing_watch down_world) =
     Inl (Error ''Failed to get printers: Command failed: lpstat -p -d'' None) \<and>
   trace (snd (check rethrowing_watch down_world)) =
     [Exec ''lpstat -p -d'',
      OnError (Error ''Failed to get printers: Command failed: lpstat -p -d'' None)] \<and>
   isRunning (snd (check rethrowing_watch down_world)) \<and>
   fst (check rethrowing_watch down_world) =
     Rejected (Error ''Failed to get printers: Command failed: lpstat -p -d'' None) \<and>
   fst (poll 5 rethrowing_watch down_world) =
     Rejected (Error ''Failed to get printers: Command failed: lpstat -p -d'' None)"
  by code_simp

section \<open>A buffer input is not validated\<close>

lemma accesses_map_Exec [simp]: "accesses (map Exec cs) = []"
  by (induction cs) auto

lemma try_buffer_error:
  assumes "printImage_try pname (Buffer content) options w = (Inl cause, t, w1)"
  shows "write_error w (temp_file_path w) = Some cause
     \<or> (\<exists>h err. shell w h ''lpstat -p -d'' = Inl err \<and>
                 cause = Error (''Failed to get printers: '' @ message err) None)
     \<or> (\<exists>h err. shell w h ''lpstat -v'' = Inl err \<and>
                 cause = Error (''Failed to get printers: '' @ message err) None)
     \<or> cause = Error (''Printer not found: '' @ pname) None
     \<or> (\<exists>h. shell w h (buildPrintCommand pname (temp_file_path w) options) = Inl cause)"
  using assms
  by (auto simp: printImage_try_def stage_input_def fs_writeFile_def getAllPrinters_def
        execAsync_def log_event_def Let_def
      split: option.splits sum.splits prod.splits)

lemma printImage_try_buffer_files:
  "fst (printImage_try pname (Buffer content) options (w\<lparr>files := g, access_error := f\<rparr>)) =
   fst (printImage_try pname (Buffer content) options w)"
  by (auto simp: printImage_try_def stage_input_def fs_writeFile_def getAllPrinters_def
        execAsync_def log_event_def temp_file_path_def Let_def
      split: sum.splits option.splits prod.splits)

text \<open>
  C10. For a buffer input \<open>printImage\<close> never calls \<^verbatim>\<open>fs.promises.access\<close>, the
  first step of \<open>validateImageFile\<close>: the validation is not performed. The staged path
  ends in \<open>.png\<close>. The result does not depend on which files exist or are readable.
  And when the call fails, the error is the wrapped error of the write of the temporary
  file, of a failed command, or "Printer not found": never one that the validation
  raises, whatever the buffer holds.
\<close>

theorem buffer_skips_validation:
  assumes "printImage pname (Buffer content) options w = (r, w')"
  shows "accesses (trace w') = accesses (trace w) \<and>
    ends_with (temp_file_path w) ''.png'' \<and>
    (\<forall>f g. fst (printImage pname (Buffer content) options
                  (w\<lparr>files := g, access_error := f\<rparr>)) = r) \<and>
    (\<forall>e. r = Inl e \<longrightarrow>
       (\<exists>cause. e = Error (''Failed to print: '' @ message cause) None \<and>
          (write_error w (temp_file_path w) = Some cause
           \<or> (\<exists>h err. shell w h ''lpstat -p -d'' = Inl err \<and>
                 cause = Error (''Failed to get printers: '' @ message err) None)
           \<or> (\<exists>h err. shell w h ''lpstat -v'' = Inl err \<and>
                 cause = Error (''Failed to get printers: '' @ message err) None)
           \<or> cause = Error (''Printer not found: '' @ pname) None
           \<or> (\<exists>h. shell w h (buildPrintCommand pname (temp_file_path w) options) = Inl cause))))"
proof -
  obtain t r1 w1 where trb: "printImage_try pname (Buffer content) options w = (r1, t, w1)"
    by (cases "printImage_try pname (Buffer content) options w")
  from try_buffer [OF trb] obtain cs where
    t: "t = Some (temp_file_path w)" and
    tr: "trace w1 = trace w @ WriteFile (temp_file_path w) content # map Exec cs"
    by blast
  from assms trb t have w': "w' = printImage_finally (Some (temp_file_path w)) w1"
    by (auto simp: printImage_def split: sum.splits)
  from assms have r: "r = fst (printImage pname (Buffer content) options w)" by simp
  have 1: "accesses (trace w') = accesses (trace w)"
    using finally_temp [OF temp_file_path_nonempty, of w w1] tr unfolding w' by auto
  have 2: "ends_with (temp_file_path w) ''.png''" by (rule temp_file_path_png)
  have 3: "\<forall>f g. fst (printImage pname (Buffer content) options
                  (w\<lparr>files := g, access_error := f\<rparr>)) = r"
    unfolding r by (simp add: printImage_fst printImage_try_buffer_files)
  have 4: "\<forall>e. r = Inl e \<longrightarrow>
       (\<exists>cause. e = Error (''Failed to print: '' @ message cause) None \<and>
          (write_error w (temp_file_path w) = Some cause
           \<or> (\<exists>h err. shell w h ''lpstat -p -d'' = Inl err \<and>
                 cause = Error (''Failed to get printers: '' @ message err) None)
           \<or> (\<exists>h err. shell w h ''lpstat -v'' = Inl err \<and>
                 cause = Error (''Failed to get printers: '' @ message err) None)
           \<or> cause = Error (''Printer not found: '' @ pname) None
           \<or> (\<exists>h. shell w h (buildPrintCommand pname (temp_file_path w) options) = Inl cause)))"
  proof (intro allI impI)
    fix e assume "r = Inl e"
    with r trb obtain cause where c: "r1 = Inl cause"
      and e: "e = Error (''Failed to print: '' @ message cause) None"
      by (auto simp: printImage_fst split: sum.splits)
    from try_buffer_error [OF trb [unfolded c]] e
    show "\<exists>cause. e = Error (''Failed to print: '' @ message cause) None \<and>
          (write_error w (temp_file_path w) = Some cause
           \<or> (\<exists>h err. shell w h ''lpstat -p -d'' = Inl err \<and>
                 cause = Error (''Failed to get printers: '' @ message err) None)
           \<or> (\<exists>h err. shell w h ''lpstat -v'' = Inl err \<and>
                 cause = Error (''Failed to get printers: '' @ message err) None)
           \<or> cause = Error (''Printer not found: '' @ pname) None
           \<or> (\<exists>h. shell w h (buildPrintCommand pname (temp_file_path w) options) = Inl cause))"
      by blast
  qed
  from 1 2 3 4 show ?thesis by blast
qed

text \<open>The theorem in the example world, for a buffer that holds no image at all.\<close>

theorem buffer_skips_validation_witness:
  "fst (printImage ''Epson'' (Buffer ''not a PNG at all'') no_options demo_world) =
     Inl (Error ''Failed to print: Printer not found: Epson'' None) \<and>
   accesses (trace (snd (printImage ''Epson'' (Buffer ''not a PNG at all'') no_options
                           demo_world))) = [] \<and>
   fst (printImage ''Canon_TS3300'' (Buffer ''not a PNG at all'') no_options demo_world) =
     Inr ''42''"
proof -
  have a: "accesses (trace demo_world) = []" by code_simp
  have b: "fst (printImage ''Epson'' (Buffer ''not a PNG at all'') no_options demo_world) =
     Inl (Error ''Failed to print: Printer not found: Epson'' None)" by code_simp
  have c: "fst (printImage ''Canon_TS3300'' (Buffer ''not a PNG at all'') no_options demo_world) =
     Inr ''42''" by code_simp
  from buffer_skips_validation [where pname = "''Epson''" and content = "''not a PNG at all''"
         and options = no_options and w = demo_world, OF prod.collapse [symmetric]] a
  have "accesses (trace (snd (printImage ''Epson'' (Buffer ''not a PNG at all'') no_options
                           demo_world))) = []"
    by simp
  with b c show ?thesis by simp
qed

end
